theory Spec2Isabelle
  imports Main
begin

section \<open>The graph data model\<close>

text \<open>
  The module \<^verbatim>\<open>pymc/logprob/mixture.py\<close> rewrites symbolic tensor graphs.  A graph
  variable has a type and either no owner (a root variable or a constant) or is one
  output of an apply node (an operation tag, the ordered inputs, the types of all
  outputs).  Python exceptions are values of \<open>error\<close>; a function that may raise
  returns \<open>error + 'a\<close> with \<open>Inl\<close> for the exception.
\<close>

datatype error =
    AttributeError | ValueError | AssertionError | IndexError | TypeError
  | NotScalarConstantError | NotConstantValueError

datatype vtype =
    TensorType string "bool list"
  | NoneTypeT
  | SliceType
  | OtherType

datatype cdata =
    NoneData
  | IntData int
  | SliceData "int option" "int option" "int option"
  | OtherData

text \<open>
  The operation tags the module dispatches on.  \<open>MixtureRV\<close> carries its
  \<^verbatim>\<open>__props__\<close> (\<^verbatim>\<open>indices_end_idx\<close>, \<^verbatim>\<open>out_dtype\<close>, \<^verbatim>\<open>out_broadcastable\<close>),
  \<open>IfElse\<close> its \<^verbatim>\<open>n_outs\<close>.  Every other operation is \<open>OtherOp name m\<close>, where
  \<open>m\<close> records whether its class is a \<^verbatim>\<open>MeasurableOp\<close>.
\<close>

datatype op =
    Subtensor | AdvancedSubtensor | AdvancedSubtensor1
  | MakeVector | Join
  | PromisedValuedRV | ValuedRV
  | MixtureRV nat string "bool list"
  | Switch | MeasurableSwitchMixture
  | IfElse nat | MeasurableIfElse nat
  | OtherOp string bool

datatype var =
    Variable vtype string
  | Constant vtype cdata
  | Out op "var list" "vtype list" nat

record Apply =
  op :: op
  inputs :: "var list"
  out_types :: "vtype list"

fun type_of :: "var \<Rightarrow> vtype" where
  "type_of (Variable t _) = t"
| "type_of (Constant t _) = t"
| "type_of (Out _ _ ts k) = (if k < length ts then ts ! k else OtherType)"

fun owner :: "var \<Rightarrow> Apply option" where
  "owner (Out f ins ts _) = Some \<lparr>op = f, inputs = ins, out_types = ts\<rparr>"
| "owner _ = None"

definition outputs :: "Apply \<Rightarrow> var list" where
  "outputs node =
     map (Out (op node) (inputs node) (out_types node)) [0..<length (out_types node)]"

definition make_node :: "op \<Rightarrow> var list \<Rightarrow> vtype list \<Rightarrow> Apply" where
  "make_node f ins ts = \<lparr>op = f, inputs = ins, out_types = ts\<rparr>"

text \<open>
  \<^verbatim>\<open>Apply.default_output\<close>: the only output of a single-output node, an exception
  otherwise (none of the operations here declares a default output index).
\<close>

definition default_output :: "Apply \<Rightarrow> error + var" where
  "default_output node =
     (case outputs node of [v] \<Rightarrow> Inr v | _ \<Rightarrow> Inl ValueError)"

text \<open>
  Attribute access.  Only tensor-typed variables have \<^verbatim>\<open>dtype\<close>, \<^verbatim>\<open>broadcastable\<close>
  and \<^verbatim>\<open>ndim\<close>; slice-typed and none-typed variables raise \<^verbatim>\<open>AttributeError\<close>.
\<close>

definition dtype :: "var \<Rightarrow> error + string" where
  "dtype v = (case type_of v of TensorType d _ \<Rightarrow> Inr d | _ \<Rightarrow> Inl AttributeError)"

definition broadcastable :: "var \<Rightarrow> error + bool list" where
  "broadcastable v = (case type_of v of TensorType _ b \<Rightarrow> Inr b | _ \<Rightarrow> Inl AttributeError)"

definition ndim :: "var \<Rightarrow> error + nat" where
  "ndim v = (case type_of v of TensorType _ b \<Rightarrow> Inr (length b) | _ \<Rightarrow> Inl AttributeError)"

definition isinstance_Constant :: "var \<Rightarrow> bool" where
  "isinstance_Constant v = (case v of Constant _ _ \<Rightarrow> True | _ \<Rightarrow> False)"

definition isinstance_SliceConstant :: "var \<Rightarrow> bool" where
  "isinstance_SliceConstant v = (case v of Constant SliceType _ \<Rightarrow> True | _ \<Rightarrow> False)"

definition NoneConst :: var where
  "NoneConst = Constant NoneTypeT NoneData"

fun isinstance_MeasurableOp :: "op \<Rightarrow> bool" where
  "isinstance_MeasurableOp (MixtureRV _ _ _) = True"
| "isinstance_MeasurableOp MeasurableSwitchMixture = True"
| "isinstance_MeasurableOp (MeasurableIfElse _) = True"
| "isinstance_MeasurableOp (OtherOp _ m) = m"
| "isinstance_MeasurableOp _ = False"

text \<open>
  Modelled from the spec: \<^verbatim>\<open>filter_measurable_variables\<close> of \<^verbatim>\<open>pymc.logprob.utils\<close>
  is not among the sources.  The spec has the measurability registry "filter a list down
  to those carrying the Measurability Tag"; a variable carries the tag when it has an
  owner whose operation is a \<^verbatim>\<open>MeasurableOp\<close>.
\<close>

definition measurable :: "var \<Rightarrow> bool" where
  "measurable v = (case owner v of None \<Rightarrow> False | Some n \<Rightarrow> isinstance_MeasurableOp (op n))"

definition filter_measurable_variables :: "var list \<Rightarrow> var list" where
  "filter_measurable_variables vs = filter measurable vs"

text \<open>
  A list comprehension over a function that may raise: the first exception ends it.
\<close>

fun traverse :: "('a \<Rightarrow> error + 'b) \<Rightarrow> 'a list \<Rightarrow> error + 'b list" where
  "traverse g [] = Inr []"
| "traverse g (x # xs) =
     (case g x of
        Inl e \<Rightarrow> Inl e
      | Inr y \<Rightarrow> (case traverse g xs of Inl e \<Rightarrow> Inl e | Inr ys \<Rightarrow> Inr (y # ys)))"

section \<open>The mixture pattern matcher for indexed stacks\<close>

definition subtensor_ops :: "op list" where
  "subtensor_ops = [AdvancedSubtensor, AdvancedSubtensor1, Subtensor]"

text \<open>
  The list comprehension that strips a \<^verbatim>\<open>PromisedValuedRV\<close> wrapper from each component.
\<close>

definition unwrap_promised :: "var \<Rightarrow> error + var" where
  "unwrap_promised rv =
     (case owner rv of
        None \<Rightarrow> Inr rv
      | Some n \<Rightarrow>
          if op n = PromisedValuedRV
          then (case inputs n of [] \<Rightarrow> Inl IndexError | x # _ \<Rightarrow> Inr x)
          else Inr rv)"

fun unwrap_all :: "var list \<Rightarrow> error + var list" where
  "unwrap_all [] = Inr []"
| "unwrap_all (rv # rvs) =
     (case unwrap_promised rv of
        Inl e \<Rightarrow> Inl e
      | Inr x \<Rightarrow> (case unwrap_all rvs of Inl e \<Rightarrow> Inl e | Inr xs \<Rightarrow> Inr (x # xs)))"

text \<open>
  \<^verbatim>\<open>constant_fold((join_axis,), raise_not_constant=False)\<close> followed by
  \<^verbatim>\<open>pt.as_tensor(join_axis, dtype="int64")\<close>.  The folding of a non-constant graph is done
  by rewriting machinery outside the module; it is the parameter \<open>folds\<close>, which gives the
  integer a variable folds to, if any.  A constant folds to its own data.  A folded axis
  becomes an \<^verbatim>\<open>int64\<close> tensor constant, an unfoldable one stays the variable it was.
\<close>

definition constant_fold :: "(var \<Rightarrow> int option) \<Rightarrow> var \<Rightarrow> int option" where
  "constant_fold folds v =
     (case v of Constant _ (IntData k) \<Rightarrow> Some k | Constant _ _ \<Rightarrow> None | _ \<Rightarrow> folds v)"

definition folded_join_axis :: "(var \<Rightarrow> int option) \<Rightarrow> var \<Rightarrow> error + var" where
  "folded_join_axis folds join_axis =
     (case constant_fold folds join_axis of
        Some k \<Rightarrow> Inr (Constant (TensorType ''int64'' []) (IntData k))
      | None \<Rightarrow>
          (case type_of join_axis of
             TensorType _ _ \<Rightarrow> Inr join_axis
           | _ \<Rightarrow> Inl TypeError))"

definition get_stack_mixture_vars ::
  "(var \<Rightarrow> int option) \<Rightarrow> Apply \<Rightarrow> error + (var list option \<times> var option)" where
  "get_stack_mixture_vars folds node =
     (if op node \<notin> set subtensor_ops then Inl AssertionError
      else case inputs node of
        [] \<Rightarrow> Inl IndexError
      | joined_rvs # _ \<Rightarrow>
          (case owner joined_rvs of
             None \<Rightarrow> Inr (None, None)
           | Some j \<Rightarrow>
               if op j = MakeVector then
                 (case unwrap_all (inputs j) of
                    Inl e \<Rightarrow> Inl e
                  | Inr mixture_rvs \<Rightarrow> Inr (Some mixture_rvs, Some NoneConst))
               else if op j = Join then
                 (case inputs j of
                    [] \<Rightarrow> Inl IndexError
                  | join_axis # rest \<Rightarrow>
                      (case folded_join_axis folds join_axis of
                         Inl e \<Rightarrow> Inl e
                       | Inr axis \<Rightarrow>
                           (case unwrap_all rest of
                              Inl e \<Rightarrow> Inl e
                            | Inr mixture_rvs \<Rightarrow> Inr (Some mixture_rvs, Some axis))))
               else Inr (None, None)))"

text \<open>
  The guard against repeated selection:
  \<^verbatim>\<open>any(indices.dtype.startswith("int") and sum(1 - b for b in indices.type.broadcastable) > 0
       for indices in mixing_indices if not isinstance(indices, SliceConstant))\<close>.
  The generator is consumed from the left and stops at the first true element; reading
  \<^verbatim>\<open>dtype\<close> of a variable that has none raises.
\<close>

definition startswith :: "string \<Rightarrow> string \<Rightarrow> bool" where
  "startswith s p = (take (length p) s = p)"

definition n_non_broadcastable :: "bool list \<Rightarrow> int" where
  "n_non_broadcastable bs = sum_list (map (\<lambda>b. 1 - (if b then 1 else 0)) bs)"

fun any_repeating_index :: "var list \<Rightarrow> error + bool" where
  "any_repeating_index [] = Inr False"
| "any_repeating_index (indices # rest) =
     (if isinstance_SliceConstant indices then any_repeating_index rest
      else case dtype indices of
        Inl e \<Rightarrow> Inl e
      | Inr d \<Rightarrow>
          if startswith d ''int'' then
            (case broadcastable indices of
               Inl e \<Rightarrow> Inl e
             | Inr bs \<Rightarrow> if n_non_broadcastable bs > 0 then Inr True
                         else any_repeating_index rest)
          else any_repeating_index rest)"

text \<open>
  The rewriter.  The decorator \<^verbatim>\<open>node_rewriter(subtensor_ops)\<close> makes it answer "no match"
  on a node of any other operation.  The test-value bookkeeping is skipped, as under
  the default configuration \<^verbatim>\<open>compute_test_value = "off"\<close>.
\<close>

definition find_measurable_index_mixture ::
  "(var \<Rightarrow> int option) \<Rightarrow> Apply \<Rightarrow> error + var option" where
  "find_measurable_index_mixture folds node =
     (if op node \<notin> set subtensor_ops then Inr None
      else
        let mixing_indices = tl (inputs node) in
        case (if op node = AdvancedSubtensor \<or> op node = AdvancedSubtensor1
              then any_repeating_index mixing_indices else Inr False) of
          Inl e \<Rightarrow> Inl e
        | Inr True \<Rightarrow> Inr None
        | Inr False \<Rightarrow>
            (case default_output node of
               Inl e \<Rightarrow> Inl e
             | Inr old_mixture_rv \<Rightarrow>
                 (case get_stack_mixture_vars folds node of
                    Inl e \<Rightarrow> Inl e
                  | Inr (None, _) \<Rightarrow> Inr None
                  | Inr (Some mixture_rvs, None) \<Rightarrow> Inr None
                  | Inr (Some mixture_rvs, Some join_axis) \<Rightarrow>
                      if \<not> isinstance_Constant join_axis then Inr None
                      else if set (filter_measurable_variables mixture_rvs) \<noteq> set mixture_rvs
                      then Inr None
                      else
                        (case dtype old_mixture_rv of
                           Inl e \<Rightarrow> Inl e
                         | Inr dt \<Rightarrow>
                             (case broadcastable old_mixture_rv of
                                Inl e \<Rightarrow> Inl e
                              | Inr bc \<Rightarrow>
                                  (case default_output
                                          (make_node
                                             (MixtureRV (1 + length mixing_indices) dt bc)
                                             ([join_axis] @ mixing_indices @ mixture_rvs)
                                             [TensorType dt bc]) of
                                     Inl e \<Rightarrow> Inl e
                                   | Inr new_mixture_rv \<Rightarrow> Inr (Some new_mixture_rv)))))))"

section \<open>The mixture pattern matcher for switches\<close>

text \<open>
  \<^verbatim>\<open>check_potential_measurability\<close> belongs to the measurability registry outside the
  module and is a parameter of the rewriter.  The generator
  \<^verbatim>\<open>any(comp.type.broadcastable != out_bcast for comp in components)\<close> stops at the first
  mismatch.  The measurable switch is an element-wise operation over the same scalar
  operation as the switch it replaces: it takes three inputs and its output has the type
  of the original output.
\<close>

fun any_broadcast_mismatch :: "bool list \<Rightarrow> var list \<Rightarrow> error + bool" where
  "any_broadcast_mismatch out_bcast [] = Inr False"
| "any_broadcast_mismatch out_bcast (component # rest) =
     (case broadcastable component of
        Inl e \<Rightarrow> Inl e
      | Inr b \<Rightarrow> if b \<noteq> out_bcast then Inr True else any_broadcast_mismatch out_bcast rest)"

definition find_measurable_switch_mixture ::
  "(var list \<Rightarrow> bool) \<Rightarrow> Apply \<Rightarrow> error + var list option" where
  "find_measurable_switch_mixture check_potential_measurability node =
     (if op node \<noteq> Switch then Inr None
      else if isinstance_MeasurableOp (op node) then Inr None
      else case inputs node of
        [] \<Rightarrow> Inl ValueError
      | switch_cond # components \<Rightarrow>
          (case outputs node of
             [] \<Rightarrow> Inl IndexError
           | out0 # _ \<Rightarrow>
               (case broadcastable out0 of
                  Inl e \<Rightarrow> Inl e
                | Inr out_bcast \<Rightarrow>
                    (case any_broadcast_mismatch out_bcast components of
                       Inl e \<Rightarrow> Inl e
                     | Inr True \<Rightarrow> Inr None
                     | Inr False \<Rightarrow>
                         if set (filter_measurable_variables components) \<noteq> set components
                         then Inr None
                         else if check_potential_measurability [switch_cond] then Inr None
                         else if length components \<noteq> 2 then Inl TypeError
                         else Inr (Some [Out MeasurableSwitchMixture (switch_cond # components)
                                           (out_types node) 0])))))"

section \<open>Tensor expressions built by the module\<close>

text \<open>
  The density derivers and the indexing expander build new tensor graphs from graph
  variables with the tensor library's functions.  Each constructor stands for one
  library call; the Python form is given beside it.
\<close>

datatype texpr =
    V var
  | PyInt int
  | FloatZero
  | Add texpr texpr
  | Eq texpr texpr
  | TIfElse texpr texpr texpr
  | TSwitch texpr texpr texpr
  | ZerosLike texpr
  | ExpandDims texpr int
  | Squeeze texpr int
  | LogProb texpr texpr
  | RvPullDown texpr
  | NewAxesLeft nat texpr
  | NewAxesRight texpr nat
  | Item0 texpr
  | GetItems texpr "texpr list"
  | GetTuple texpr texpr
  | ArangeSlice "int option" "int option" "int option" texpr
  | ShapeDim texpr nat
  | BroadcastArrays "texpr list" nat
  | Shape texpr
  | Empty texpr
  | Nonzero texpr
  | SetSubtensor texpr texpr texpr

section \<open>The indexing expander\<close>

text \<open>
  An index is a graph variable, a Python slice of literals or Python's \<^verbatim>\<open>None\<close>.
  \<^verbatim>\<open>is_basic_idx\<close> of the tensor library holds of slices and of \<^verbatim>\<open>None\<close> (as Python
  objects or as slice-typed and none-typed variables); an integer, also a scalar one, is
  an advanced index.
\<close>

datatype index = Ix var | PySlice "int option" "int option" "int option" | PyNone

fun is_newaxis :: "index \<Rightarrow> bool" where
  "is_newaxis PyNone = True"
| "is_newaxis (Ix v) = (type_of v = NoneTypeT)"
| "is_newaxis (PySlice _ _ _) = False"

fun is_basic_idx :: "index \<Rightarrow> bool" where
  "is_basic_idx PyNone = True"
| "is_basic_idx (PySlice _ _ _) = True"
| "is_basic_idx (Ix v) = (type_of v = SliceType \<or> type_of v = NoneTypeT)"

text \<open>
  \<^verbatim>\<open>list.index(x, start)\<close>: the first position from \<open>start\<close> on that holds \<open>x\<close>;
  \<open>None\<close> stands for the \<^verbatim>\<open>ValueError\<close> that the source catches.
\<close>

fun index_of :: "'a \<Rightarrow> 'a list \<Rightarrow> nat \<Rightarrow> nat option" where
  "index_of x [] k = None"
| "index_of x (y # ys) k = (if x = y then Some k else index_of x ys (Suc k))"

definition list_index :: "'a list \<Rightarrow> 'a \<Rightarrow> nat \<Rightarrow> nat option" where
  "list_index xs x start = index_of x (drop start xs) start"

definition subspace_info :: "bool list \<Rightarrow> nat \<Rightarrow> nat \<times> bool" where
  "subspace_info index_types len_shape =
     (case list_index index_types False 0 of
        None \<Rightarrow> (len_shape, False)
      | Some first_adv_idx \<Rightarrow>
          (case list_index index_types True first_adv_idx of
             None \<Rightarrow> (first_adv_idx, False)
           | Some first_bsc_after_adv_idx \<Rightarrow>
               (case list_index index_types False first_bsc_after_adv_idx of
                  None \<Rightarrow> (first_adv_idx, False)
                | Some _ \<Rightarrow> (first_adv_idx, True))))"

fun getattr_ndim :: "index \<Rightarrow> nat" where
  "getattr_ndim (Ix v) = (case type_of v of TensorType _ b \<Rightarrow> length b | _ \<Rightarrow> 0)"
| "getattr_ndim _ = 0"

definition n_subspace_dims_of :: "index list \<Rightarrow> nat" where
  "n_subspace_dims_of full_indices =
     foldr max (map getattr_ndim (filter (\<lambda>idx. \<not> is_basic_idx idx) full_indices)) 0"

definition n_basic_indices_of :: "index list \<Rightarrow> nat" where
  "n_basic_indices_of full_indices = length (filter is_basic_idx full_indices)"

text \<open>
  The rank of an index expression: \<^verbatim>\<open>x[(None,) * k]\<close> is \<open>NewAxesLeft k x\<close> and
  \<^verbatim>\<open>x[(Ellipsis,) + (None,) * k]\<close> is \<open>NewAxesRight x k\<close>; a repetition count that is
  negative in Python gives the empty tuple, as the truncated subtraction does here.
  \<open>ArangeSlice a b c s\<close> is \<^verbatim>\<open>pt.arange\<close> over the canonical form of the slice
  \<open>a:b:c\<close> against a dimension of length \<open>s\<close>.
\<close>

fun ndim_t :: "texpr \<Rightarrow> nat" where
  "ndim_t (V v) = (case type_of v of TensorType _ b \<Rightarrow> length b | _ \<Rightarrow> 0)"
| "ndim_t (ArangeSlice _ _ _ _) = 1"
| "ndim_t (NewAxesLeft k e) = k + ndim_t e"
| "ndim_t (NewAxesRight e k) = ndim_t e + k"
| "ndim_t (BroadcastArrays es k) = foldr max (map ndim_t es) 0"
| "ndim_t (Eq a b) = max (ndim_t a) (ndim_t b)"
| "ndim_t (Item0 e) = ndim_t e - 1"
| "ndim_t _ = 0"

definition as_tensor :: "index \<Rightarrow> error + texpr" where
  "as_tensor idx =
     (case idx of
        Ix v \<Rightarrow> (case type_of v of TensorType _ _ \<Rightarrow> Inr (V v) | _ \<Rightarrow> Inl TypeError)
      | _ \<Rightarrow> Inl TypeError)"

definition slice_arange :: "index \<Rightarrow> texpr \<Rightarrow> error + texpr" where
  "slice_arange idx s =
     (case idx of
        PySlice a b c \<Rightarrow> Inr (ArangeSlice a b c s)
      | Ix (Constant SliceType (SliceData a b c)) \<Rightarrow> Inr (ArangeSlice a b c s)
      | _ \<Rightarrow> Inl NotScalarConstantError)"

text \<open>
  The loop over \<^verbatim>\<open>enumerate(full_indices)\<close>; its state is the position \<open>d\<close>, the
  counter \<^verbatim>\<open>n_preceding_basics\<close> and what is left of \<^verbatim>\<open>shape_copy\<close>.  It returns
  the list \<^verbatim>\<open>adv_indices\<close>.
\<close>

fun expand_loop ::
  "bool \<Rightarrow> nat \<Rightarrow> nat \<Rightarrow> nat \<Rightarrow> nat \<Rightarrow> nat \<Rightarrow> texpr list \<Rightarrow> index list \<Rightarrow> error + texpr list"
where
  "expand_loop moved_subspace first_adv_idx n_basic_indices n_subspace_dims
       d n_preceding_basics shape_copy [] = Inr []"
| "expand_loop moved_subspace first_adv_idx n_basic_indices n_subspace_dims
       d n_preceding_basics shape_copy (idx # rest) =
     (let n_output_dims = n_subspace_dims + n_basic_indices in
      if \<not> is_basic_idx idx then
        (case shape_copy of
           [] \<Rightarrow> Inl IndexError
         | s # shape_rest \<Rightarrow>
             (case as_tensor idx of
                Inl e \<Rightarrow> Inl e
              | Inr t \<Rightarrow>
                  let expanded_idx =
                        (if moved_subspace then NewAxesRight t n_basic_indices
                         else NewAxesRight (NewAxesLeft n_preceding_basics t)
                                (n_basic_indices - n_preceding_basics))
                  in if \<not> ndim_t expanded_idx \<le> n_output_dims then Inl AssertionError
                     else
                       (case expand_loop moved_subspace first_adv_idx n_basic_indices
                               n_subspace_dims (Suc d) n_preceding_basics shape_rest rest of
                          Inl e \<Rightarrow> Inl e
                        | Inr adv_indices \<Rightarrow> Inr (expanded_idx # adv_indices))))
      else if is_newaxis idx then
        expand_loop moved_subspace first_adv_idx n_basic_indices n_subspace_dims
          (Suc d) (Suc n_preceding_basics) shape_copy rest
      else
        (case shape_copy of
           [] \<Rightarrow> Inl IndexError
         | s # shape_rest \<Rightarrow>
             (case slice_arange idx s of
                Inl e \<Rightarrow> Inl e
              | Inr t \<Rightarrow>
                  let expanded_idx =
                        (if moved_subspace then
                           NewAxesRight (NewAxesLeft (n_subspace_dims + n_preceding_basics) t)
                             (n_basic_indices - n_preceding_basics - 1)
                         else
                           let n_preceding_dims =
                                 (if d > first_adv_idx then n_subspace_dims else 0)
                                 + n_preceding_basics
                           in NewAxesRight (NewAxesLeft n_preceding_dims t)
                                (n_output_dims - n_preceding_dims - 1))
                  in if \<not> ndim_t expanded_idx \<le> n_output_dims then Inl AssertionError
                     else
                       (case expand_loop moved_subspace first_adv_idx n_basic_indices
                               n_subspace_dims (Suc d) (Suc n_preceding_basics) shape_rest rest of
                          Inl e \<Rightarrow> Inl e
                        | Inr adv_indices \<Rightarrow> Inr (expanded_idx # adv_indices)))))"

definition full_indices_of :: "index list \<Rightarrow> texpr list \<Rightarrow> index list" where
  "full_indices_of indices shape =
     (let n_non_newaxis = length (filter (\<lambda>idx. \<not> is_newaxis idx) indices);
          n_missing_dims = length shape - n_non_newaxis
      in indices @ replicate n_missing_dims (PySlice None None None))"

definition expanded_indices :: "index list \<Rightarrow> texpr list \<Rightarrow> error + texpr list" where
  "expanded_indices indices shape =
     (let full_indices = full_indices_of indices shape;
          index_types = map is_basic_idx full_indices;
          (first_adv_idx, moved_subspace) = subspace_info index_types (length shape);
          n_basic_indices = n_basic_indices_of full_indices;
          n_subspace_dims = n_subspace_dims_of full_indices
      in expand_loop moved_subspace first_adv_idx n_basic_indices n_subspace_dims
           0 0 shape full_indices)"

definition expand_indices :: "index list \<Rightarrow> texpr list \<Rightarrow> error + texpr list" where
  "expand_indices indices shape =
     (case expanded_indices indices shape of
        Inl e \<Rightarrow> Inl e
      | Inr adv_indices \<Rightarrow>
          Inr (map (BroadcastArrays adv_indices) [0..<length adv_indices]))"

section \<open>The density derivers\<close>

text \<open>
  \<^verbatim>\<open>_logprob_helper(rv, value)\<close>, the recursive derivation of the density of \<open>rv\<close> at
  \<open>value\<close>, belongs to the density framework outside the module: it is the constructor
  \<open>LogProb\<close>.  \<^verbatim>\<open>rv_pull_down\<close> runs rewrites of the tensor library on its argument: it
  is the constructor \<open>RvPullDown\<close>.
\<close>

definition rv_pull_down :: "texpr \<Rightarrow> texpr" where
  "rv_pull_down x = RvPullDown x"

definition logprob_helper :: "texpr \<Rightarrow> texpr \<Rightarrow> texpr" where
  "logprob_helper rv value = LogProb rv value"

definition logprob_switch_mixture ::
  "op \<Rightarrow> texpr list \<Rightarrow> var \<Rightarrow> var \<Rightarrow> var \<Rightarrow> error + texpr" where
  "logprob_switch_mixture f values switch_cond component_true component_false =
     (case values of
        [value] \<Rightarrow>
          Inr (TSwitch (V switch_cond)
                 (logprob_helper (V component_true) value)
                 (logprob_helper (V component_false) value))
      | _ \<Rightarrow> Inl ValueError)"

definition logprob_ifelse ::
  "op \<Rightarrow> texpr list \<Rightarrow> var \<Rightarrow> var \<Rightarrow> var \<Rightarrow> error + texpr" where
  "logprob_ifelse f values if_var rv_then rv_else =
     (case values of
        [value] \<Rightarrow>
          (let logps_then = logprob_helper (V rv_then) value;
               logps_else = logprob_helper (V rv_else) value
           in Inr (TIfElse (V if_var) logps_then logps_else))
      | _ \<Rightarrow> Inl ValueError)"

text \<open>\<^verbatim>\<open>xs[i]\<close> on a Python tuple: a negative \<open>i\<close> counts from the end.\<close>

definition py_get :: "'a list \<Rightarrow> int \<Rightarrow> error + 'a" where
  "py_get xs i =
     (if 0 \<le> i \<and> i < int (length xs) then Inr (xs ! nat i)
      else if i < 0 \<and> - int (length xs) \<le> i then Inr (xs ! nat (int (length xs) + i))
      else Inl IndexError)"

text \<open>
  The tensor library checks ranks when the graph is built: \<^verbatim>\<open>pt.nonzero\<close> refuses a tensor
  of rank 0 (\<^verbatim>\<open>ValueError\<close>) and returns one index vector per dimension otherwise, and
  indexing refuses more indices than the indexed tensor has dimensions (\<^verbatim>\<open>IndexError\<close>).
\<close>

definition nonzero :: "texpr \<Rightarrow> error + texpr" where
  "nonzero x = (if ndim_t x = 0 then Inl ValueError else Inr (Nonzero x))"

definition getitem_nonzero :: "texpr \<Rightarrow> texpr \<Rightarrow> error + texpr" where
  "getitem_nonzero v idx =
     (case idx of
        Nonzero x \<Rightarrow> if ndim_t x > ndim_t v then Inl IndexError else Inr (GetTuple v idx)
      | _ \<Rightarrow> Inr (GetTuple v idx))"

definition getitem_0 :: "texpr \<Rightarrow> error + texpr" where
  "getitem_0 rv = (if ndim_t rv = 0 then Inl IndexError else Inr (Item0 rv))"

definition getitem_tuple :: "texpr \<Rightarrow> texpr list \<Rightarrow> error + texpr" where
  "getitem_tuple rv idxs =
     (if length idxs > ndim_t rv then Inl IndexError else Inr (GetItems rv idxs))"

text \<open>The loop of the vector regime, one pass per component \<open>m\<close>.\<close>

fun vector_loop ::
  "texpr list \<Rightarrow> int \<Rightarrow> texpr \<Rightarrow> nat \<Rightarrow> texpr list \<Rightarrow> texpr \<Rightarrow> error + texpr" where
  "vector_loop bcast_indices join_axis_val value m [] logp_val = Inr logp_val"
| "vector_loop bcast_indices join_axis_val value m (rv # rest) logp_val =
     (case py_get bcast_indices join_axis_val of
        Inl e \<Rightarrow> Inl e
      | Inr on_axis \<Rightarrow>
          (case nonzero (Eq on_axis (PyInt (int m))) of
             Inl e \<Rightarrow> Inl e
           | Inr idx_m_on_axis \<Rightarrow>
               (case traverse (\<lambda>(i, v). getitem_nonzero v idx_m_on_axis)
                       (filter (\<lambda>(i, v). int i \<noteq> join_axis_val)
                          (zip [0..<length bcast_indices] bcast_indices)) of
                  Inl e \<Rightarrow> Inl e
                | Inr m_indices \<Rightarrow>
                    (case getitem_0 rv of
                       Inl e \<Rightarrow> Inl e
                     | Inr rv0 \<Rightarrow>
                         (case (if m_indices \<noteq> [] then getitem_tuple rv0 m_indices
                                else Inr rv0) of
                            Inl e \<Rightarrow> Inl e
                          | Inr indexed \<Rightarrow>
                              (case getitem_nonzero value idx_m_on_axis of
                                 Inl e \<Rightarrow> Inl e
                               | Inr val_m \<Rightarrow>
                                   let rv_m = rv_pull_down indexed;
                                       logp_m = logprob_helper rv_m val_m
                                   in vector_loop bcast_indices join_axis_val value (Suc m) rest
                                        (SetSubtensor logp_val idx_m_on_axis logp_m)))))))"

text \<open>The loop of the scalar regime, one pass per component \<open>i\<close>.\<close>

fun scalar_loop ::
  "var \<Rightarrow> int option \<Rightarrow> texpr \<Rightarrow> nat \<Rightarrow> var list \<Rightarrow> texpr \<Rightarrow> texpr" where
  "scalar_loop index0 join_axis_val value i [] logp_val = logp_val"
| "scalar_loop index0 join_axis_val value i (comp_rv # rest) logp_val =
     (let comp_logp = logprob_helper (V comp_rv) value;
          comp_logp = (case join_axis_val of
                         None \<Rightarrow> comp_logp
                       | Some a \<Rightarrow> Squeeze comp_logp a)
      in scalar_loop index0 join_axis_val value (Suc i) rest
           (Add logp_val
              (TIfElse (Eq (V index0) (PyInt (int i))) comp_logp (ZerosLike comp_logp))))"

text \<open>
  \<^verbatim>\<open>shape_tuple(x)\<close> gives one entry per dimension of a tensor variable.
\<close>

definition shape_tuple :: "var \<Rightarrow> error + texpr list" where
  "shape_tuple x =
     (case type_of x of
        TensorType _ b \<Rightarrow> Inr (map (ShapeDim (V x)) [0..<length b])
      | _ \<Rightarrow> Inl TypeError)"

definition logprob_MixtureRV ::
  "(var \<Rightarrow> int option) \<Rightarrow> op \<Rightarrow> texpr list \<Rightarrow> var list \<Rightarrow> error + texpr" where
  "logprob_MixtureRV folds f values args =
     (case f of
        MixtureRV indices_end_idx _ _ \<Rightarrow>
          (case values of
             [value] \<Rightarrow>
               (case args of
                  [] \<Rightarrow> Inl IndexError
                | join_axis # _ \<Rightarrow>
                    let indices = take (indices_end_idx - 1) (drop 1 args);
                        comp_rvs = drop indices_end_idx args
                    in if \<not> length indices > 0 then Inl AssertionError
                       else
                         (case (if length indices > 1 then Inr True
                                else case ndim (indices ! 0) of
                                       Inl e \<Rightarrow> Inl e
                                     | Inr n \<Rightarrow> Inr (n > 0)) of
                            Inl e \<Rightarrow> Inl e
                          | Inr True \<Rightarrow>
                              (case (if type_of join_axis = NoneTypeT
                                     then Inr (0, map (\<lambda>c. NewAxesLeft 1 (V c)) comp_rvs,
                                               [PyInt (int (length comp_rvs))])
                                     else case constant_fold folds join_axis of
                                            None \<Rightarrow> Inl NotConstantValueError
                                          | Some a \<Rightarrow>
                                              (case comp_rvs of
                                                 [] \<Rightarrow> Inl IndexError
                                               | c0 # _ \<Rightarrow>
                                                   (case shape_tuple c0 of
                                                      Inl e \<Rightarrow> Inl e
                                                    | Inr sh \<Rightarrow> Inr (a, map V comp_rvs, sh)))) of
                                 Inl e \<Rightarrow> Inl e
                               | Inr (join_axis_val, comps, original_shape) \<Rightarrow>
                                   (case expand_indices (map Ix indices) original_shape of
                                      Inl e \<Rightarrow> Inl e
                                    | Inr bcast_indices \<Rightarrow>
                                        (case bcast_indices of
                                           [] \<Rightarrow> Inl IndexError
                                         | b0 # _ \<Rightarrow>
                                             vector_loop bcast_indices join_axis_val value 0 comps
                                               (Empty (Shape b0)))))
                          | Inr False \<Rightarrow>
                              (case (if type_of join_axis = NoneTypeT then Inr None
                                     else case join_axis of
                                            Constant _ (IntData a) \<Rightarrow> Inr (Some a)
                                          | Constant _ _ \<Rightarrow> Inl TypeError
                                          | _ \<Rightarrow> Inl AttributeError) of
                                 Inl e \<Rightarrow> Inl e
                               | Inr join_axis_val \<Rightarrow>
                                   let value = (case join_axis_val of
                                                  None \<Rightarrow> value
                                                | Some a \<Rightarrow> ExpandDims value a)
                                   in Inr (scalar_loop (indices ! 0) join_axis_val value 0
                                             comp_rvs FloatZero))))
           | _ \<Rightarrow> Inl ValueError)
      | _ \<Rightarrow> Inl AttributeError)"

section \<open>Pointwise meaning of density graphs\<close>

text \<open>
  A density graph is read at one position (a multi-index) of its output.  The meaning of
  the leaves comes from outside the module: the runtime value of a scalar integer
  variable, the truth of a condition variable at a position, and the value at a position
  of a recursively derived density.  Densities live in any additive monoid (the zero
  density graphs \<^verbatim>\<open>0.0\<close> and \<^verbatim>\<open>zeros_like\<close> are its zero).  The operands of an addition
  are read at the same position: the components of a mixture have densities of one
  shape, that of the value.
\<close>

record 'a interp =
  int_val :: "var \<Rightarrow> int"
  cond_at :: "var \<Rightarrow> nat list \<Rightarrow> bool"
  logp_at :: "texpr \<Rightarrow> texpr \<Rightarrow> nat list \<Rightarrow> 'a"

fun scalar_int :: "'a interp \<Rightarrow> texpr \<Rightarrow> int option" where
  "scalar_int I (V v) = Some (int_val I v)"
| "scalar_int I (PyInt k) = Some k"
| "scalar_int I _ = None"

fun truth_at :: "'a interp \<Rightarrow> texpr \<Rightarrow> nat list \<Rightarrow> bool" where
  "truth_at I (V v) p = cond_at I v p"
| "truth_at I (Eq a b) p =
     (case (scalar_int I a, scalar_int I b) of (Some x, Some y) \<Rightarrow> x = y | _ \<Rightarrow> False)"
| "truth_at I _ p = False"

definition norm_axis :: "int \<Rightarrow> nat \<Rightarrow> nat" where
  "norm_axis a n = (if a < 0 then nat (a + int n) else nat a)"

definition insert_axis :: "int \<Rightarrow> nat list \<Rightarrow> nat list" where
  "insert_axis a p = (let k = norm_axis a (Suc (length p)) in take k p @ [0] @ drop k p)"

definition delete_axis :: "int \<Rightarrow> nat list \<Rightarrow> nat list" where
  "delete_axis a p = (let k = norm_axis a (length p) in take k p @ drop (Suc k) p)"

fun dens_at :: "('a::monoid_add) interp \<Rightarrow> texpr \<Rightarrow> nat list \<Rightarrow> 'a" where
  "dens_at I (LogProb rv v) p = logp_at I rv v p"
| "dens_at I FloatZero p = 0"
| "dens_at I (ZerosLike e) p = 0"
| "dens_at I (Add a b) p = dens_at I a p + dens_at I b p"
| "dens_at I (TIfElse c a b) p = (if truth_at I c [] then dens_at I a p else dens_at I b p)"
| "dens_at I (TSwitch c a b) p = (if truth_at I c p then dens_at I a p else dens_at I b p)"
| "dens_at I (Squeeze e a) p = dens_at I e (insert_axis a p)"
| "dens_at I (ExpandDims e a) p = dens_at I e (delete_axis a p)"
| "dens_at I _ p = 0"

section \<open>The scalar regime as the spec words it\<close>

text \<open>
  The spec has the scalar regime "accumulate the sum over \<open>i\<close> of
  \<open>(index == i) ? density_i : 0\<close>", the density of component \<open>i\<close> being derived at the
  value, which is expanded along a constant join axis before and squeezed after.
\<close>

definition component_density :: "int option \<Rightarrow> texpr \<Rightarrow> var \<Rightarrow> texpr" where
  "component_density join_axis_val value c =
     (case join_axis_val of
        None \<Rightarrow> LogProb (V c) value
      | Some a \<Rightarrow> Squeeze (LogProb (V c) (ExpandDims value a)) a)"

definition selected_term :: "var \<Rightarrow> nat \<times> texpr \<Rightarrow> texpr" where
  "selected_term index0 = (\<lambda>(i, d). TIfElse (Eq (V index0) (PyInt (int i))) d (ZerosLike d))"

definition selected_sum :: "var \<Rightarrow> texpr list \<Rightarrow> texpr" where
  "selected_sum index0 ds =
     foldl Add FloatZero (map (selected_term index0) (zip [0..<length ds] ds))"

section \<open>Entrywise meaning of the vector regime's graph\<close>

text \<open>
  The graph of the vector regime is read entry by entry for integer index arrays.  A
  tensor is the list of its entries in row-major order; the broadcast index arrays, the
  value and the buffer share one shape, so a position \<open>p\<close> names the same entry in each.
  \<open>iv\<close> gives the entries of the broadcast index arrays.

  \<^verbatim>\<open>pt.nonzero(pt.eq(e, m))\<close> lists the positions where \<open>e\<close> holds \<open>m\<close> and \<^verbatim>\<open>x[at]\<close> gathers
  the entries of \<open>x\<close> there.  \<^verbatim>\<open>rv[0][i1, ..., ik]\<close> with index vectors selects, for the
  \<open>j\<close>-th density, the entry of \<open>rv\<close> at the multi-index \<open>0, i1[j], ..., ik[j]\<close>;
  \<^verbatim>\<open>rv_pull_down\<close> does not change which entry that is.  \<^verbatim>\<open>pt.empty\<close> allocates entries that
  hold nothing (\<open>None\<close>) and \<^verbatim>\<open>pt.set_subtensor(buf[at], y)\<close> writes the entries of \<open>y\<close> at
  the positions.  What a position of the buffer holds is read as: the density of which
  entry of which component, taken at which entry of the value.
\<close>

fun positions :: "(texpr \<Rightarrow> int list) \<Rightarrow> texpr \<Rightarrow> nat list" where
  "positions iv (Nonzero (Eq e (PyInt m))) =
     filter (\<lambda>p. iv e ! p = m) [0..<length (iv e)]"
| "positions iv _ = []"

fun gathered :: "(texpr \<Rightarrow> int list) \<Rightarrow> texpr \<Rightarrow> int list" where
  "gathered iv (GetTuple b at) = map (\<lambda>p. iv b ! p) (positions iv at)"
| "gathered iv e = iv e"

fun selected_entries :: "(texpr \<Rightarrow> int list) \<Rightarrow> texpr \<Rightarrow> nat \<Rightarrow> (texpr \<times> int list) list" where
  "selected_entries iv (RvPullDown (GetItems (Item0 rv) subs)) n =
     map (\<lambda>j. (rv, 0 # map (\<lambda>s. gathered iv s ! j) subs)) [0..<n]"
| "selected_entries iv (RvPullDown (Item0 rv)) n = replicate n (rv, [0])"
| "selected_entries iv _ n = []"

fun scatter :: "'a option list \<Rightarrow> nat list \<Rightarrow> 'a list \<Rightarrow> 'a option list" where
  "scatter buf (p # ps) (y # ys) = scatter (buf[p := Some y]) ps ys"
| "scatter buf _ _ = buf"

fun written :: "(texpr \<Rightarrow> int list) \<Rightarrow> texpr \<Rightarrow> (texpr \<times> int list \<times> nat) option list" where
  "written iv (Empty (Shape b)) = replicate (length (iv b)) None"
| "written iv (SetSubtensor buf at (LogProb rv_m (GetTuple value at_value))) =
     scatter (written iv buf) (positions iv at)
       (map (\<lambda>((rv, js), q). (rv, js, q))
          (zip (selected_entries iv rv_m (length (positions iv at_value)))
               (positions iv at_value)))"
| "written iv _ = []"

text \<open>
  The entry that produces a position.  The components of a stack have extent 1 along the
  join axis \<open>ja\<close>; where the expanded indices hold \<open>js\<close>, the indexed join holds the entry of
  the component \<open>js ! ja\<close> at \<open>js\<close> with \<open>0\<close> in place of the component's number.
\<close>

definition producing_entry :: "texpr list \<Rightarrow> nat \<Rightarrow> int list \<Rightarrow> texpr \<times> int list" where
  "producing_entry comps ja js = (comps ! nat (js ! ja), js[ja := 0])"

definition produced :: "(texpr \<Rightarrow> int list) \<Rightarrow> texpr list \<Rightarrow> nat \<Rightarrow> texpr list
    \<Rightarrow> (texpr \<times> int list \<times> nat) option list" where
  "produced iv comps ja bcast_indices =
     map (\<lambda>p. case producing_entry comps ja (map (\<lambda>b. iv b ! p) bcast_indices) of
                 (rv, js) \<Rightarrow> Some (rv, js, p))
       [0..<length (iv (bcast_indices ! 0))]"

section \<open>The splitter of valued multi-output conditionals\<close>

text \<open>
  The rewriter reads two things off the function graph it works in: the valued nodes
  that consume an output of the conditional (\<^verbatim>\<open>get_related_valued_nodes\<close>, of the
  measurability registry outside the module) and the topological order of the apply
  nodes.  Both are fields of the record below.  The decorator \<^verbatim>\<open>node_rewriter([IfElse])\<close>
  tracks the class, so the rewriter sees every node whose operation has \<^verbatim>\<open>n_outs\<close>.
\<close>

record FunctionGraph =
  related_valued_nodes :: "Apply \<Rightarrow> Apply list"
  toposort :: "Apply list"

fun n_outs :: "op \<Rightarrow> nat option" where
  "n_outs (IfElse n) = Some n"
| "n_outs (MeasurableIfElse n) = Some n"
| "n_outs _ = None"

text \<open>
  One entry of \<^verbatim>\<open>then_else_valued_outputs\<close>: the then and the else branch of a valued
  output, its value variable and the output of its valued node.
\<close>

type_synonym valued_output = "var \<times> var \<times> var \<times> var"

definition valued_entry ::
  "Apply \<Rightarrow> var list \<Rightarrow> var list \<Rightarrow> Apply \<Rightarrow> error + valued_output" where
  "valued_entry node then_outputs else_outputs valued_output_node =
     (case inputs valued_output_node of
        [rv, value] \<Rightarrow>
          (case outputs valued_output_node of
             [valued_out] \<Rightarrow>
               (case index_of rv (outputs node) 0 of
                  None \<Rightarrow> Inl ValueError
                | Some rv_idx \<Rightarrow>
                    if rv_idx < length then_outputs \<and> rv_idx < length else_outputs
                    then Inr (then_outputs ! rv_idx, else_outputs ! rv_idx, value, valued_out)
                    else Inl IndexError)
           | _ \<Rightarrow> Inl ValueError)
      | _ \<Rightarrow> Inl ValueError)"

text \<open>
  The sort key \<^verbatim>\<open>max(toposort.index(x[0].owner), toposort.index(x[1].owner))\<close>; a branch
  with no owner is not in the order and \<^verbatim>\<open>index\<close> raises.  \<^verbatim>\<open>sorted\<close> computes every key
  and is stable, as \<open>sort_key\<close> is.
\<close>

definition topo_key :: "Apply list \<Rightarrow> valued_output \<Rightarrow> error + nat" where
  "topo_key ts x =
     (case (owner (fst x), owner (fst (snd x))) of
        (Some a, Some b) \<Rightarrow>
          (case (index_of a ts 0, index_of b ts 0) of
             (Some i, Some j) \<Rightarrow> Inr (max i j)
           | _ \<Rightarrow> Inl ValueError)
      | _ \<Rightarrow> Inl ValueError)"

definition sorted_by_topo :: "Apply list \<Rightarrow> valued_output list \<Rightarrow> error + valued_output list" where
  "sorted_by_topo ts xs =
     (case traverse (topo_key ts) xs of
        Inl e \<Rightarrow> Inl e
      | Inr keys \<Rightarrow> Inr (map snd (sort_key fst (zip keys xs))))"

text \<open>
  \<^verbatim>\<open>ifelse(cond, thens, elses)\<close> builds one conditional node with an output per branch
  pair, typed as the then branch; \<^verbatim>\<open>valued_rv(rv, value)\<close> builds a valued node typed as
  \<open>rv\<close>.
\<close>

definition ifelse :: "var \<Rightarrow> var list \<Rightarrow> var list \<Rightarrow> var list" where
  "ifelse cond then_branch else_branch =
     outputs (make_node (IfElse (length then_branch)) (cond # then_branch @ else_branch)
                (map type_of then_branch))"

definition valued_rv :: "var \<Rightarrow> var \<Rightarrow> var" where
  "valued_rv rv value = Out ValuedRV [rv, value] [type_of rv] 0"

text \<open>
  \<^verbatim>\<open>ancestors\<close> walks from a variable through the inputs of its owner and yields the
  variable itself first.
\<close>

fun ancestors :: "var \<Rightarrow> var list" where
  "ancestors (Out f ins ts k) = Out f ins ts k # concat (map ancestors ins)"
| "ancestors v = [v]"

text \<open>
  The temporary function graph is built with \<^verbatim>\<open>clone=False\<close>: its nodes are the nodes of
  the graph the rewriter works in, and \<^verbatim>\<open>replace\<close> changes their inputs in place.  A
  variable term names the object built with that structure; what \<^verbatim>\<open>replace\<close> changes is
  recorded as a list of input slots, a slot being a node and a position among its inputs.

  The nodes of the temporary graph are those reached from its outputs through inputs.
  A slot that has been given the ownerless \<^verbatim>\<open>dummy_first_valued_ifelse\<close> leads nowhere, so
  the walk does not pass the slots in \<open>blocked\<close>.  \<^verbatim>\<open>replace(var, dummy)\<close> changes every slot
  of such a node that still holds \<open>var\<close>: these are the \<open>clients\<close>.  The last \<^verbatim>\<open>replace\<close>
  puts the first valued conditional into every slot that holds the dummy.
\<close>

type_synonym slot = "Apply \<times> nat"

fun nodes_from :: "slot list \<Rightarrow> var \<Rightarrow> Apply list"
  and nodes_from_inputs :: "slot list \<Rightarrow> Apply \<Rightarrow> nat \<Rightarrow> var list \<Rightarrow> Apply list" where
  "nodes_from blocked (Out f ins ts k) =
     \<lparr>op = f, inputs = ins, out_types = ts\<rparr>
     # nodes_from_inputs blocked \<lparr>op = f, inputs = ins, out_types = ts\<rparr> 0 ins"
| "nodes_from blocked (Variable t name) = []"
| "nodes_from blocked (Constant t d) = []"
| "nodes_from_inputs blocked node i [] = []"
| "nodes_from_inputs blocked node i (v # vs) =
     (if (node, i) \<in> set blocked then [] else nodes_from blocked v)
     @ nodes_from_inputs blocked node (Suc i) vs"

definition clients :: "slot list \<Rightarrow> var list \<Rightarrow> var \<Rightarrow> slot list" where
  "clients blocked outs var =
     concat (map (\<lambda>node.
         map (\<lambda>i. (node, i))
           (filter (\<lambda>i. inputs node ! i = var \<and> (node, i) \<notin> set blocked)
              [0..<length (inputs node)]))
       (remdups (concat (map (nodes_from blocked) outs))))"

definition then_else_valued_outputs ::
  "FunctionGraph \<Rightarrow> Apply \<Rightarrow> nat \<Rightarrow> var list \<Rightarrow> error + valued_output list" where
  "then_else_valued_outputs fgraph node n all_outputs =
     (let then_outputs = take n all_outputs;
          else_outputs = drop n all_outputs
      in case traverse (valued_entry node then_outputs else_outputs)
                (related_valued_nodes fgraph node) of
           Inl e \<Rightarrow> Inl e
         | Inr unsorted \<Rightarrow> sorted_by_topo (toposort fgraph) unsorted)"

text \<open>
  The rewriter returns the dictionary \<^verbatim>\<open>replacements\<close>; the slots it has changed in place
  on the way, all holding the first valued conditional in the end, are returned beside it.
\<close>

definition split_valued_ifelse ::
  "FunctionGraph \<Rightarrow> Apply \<Rightarrow> error + ((var \<times> var) list \<times> slot list) option" where
  "split_valued_ifelse fgraph node =
     (case n_outs (op node) of
        None \<Rightarrow> Inr None
      | Some n \<Rightarrow>
          if n = 1 then Inr None
          else if related_valued_nodes fgraph node = [] then Inr None
          else
            (case inputs node of
               [] \<Rightarrow> Inl ValueError
             | cond # all_outputs \<Rightarrow>
                 (case then_else_valued_outputs fgraph node n all_outputs of
                    Inl e \<Rightarrow> Inl e
                  | Inr [] \<Rightarrow> Inl ValueError
                  | Inr ((first_then, first_else, first_value_var, first_valued_out)
                           # remaining_vars) \<Rightarrow>
                      let first_ifelse = hd (ifelse cond [first_then] [first_else]);
                          first_valued_ifelse = valued_rv first_ifelse first_value_var
                      in
                      if remaining_vars = []
                      then Inr (Some ([(first_valued_out, first_valued_ifelse)], []))
                      else
                        let first_ifelse_ancestors =
                              filter (\<lambda>a. owner a \<noteq> None)
                                (ancestors first_then @ ancestors first_else);
                            remaining_thens = map fst remaining_vars;
                            remaininng_elses = map (\<lambda>x. fst (snd x)) remaining_vars
                        in
                        if set (remaining_thens @ remaininng_elses)
                             \<inter> set first_ifelse_ancestors \<noteq> {}
                        then Inr None
                        else
                          let remaining_ifelses = ifelse cond remaining_thens remaininng_elses;
                              then_slots = clients [] remaining_ifelses first_then;
                              else_slots = clients then_slots remaining_ifelses first_else
                          in Inr (Some
                               ((first_valued_out, first_valued_ifelse)
                                # map (\<lambda>(remaining_ifelse, x).
                                         (snd (snd (snd x)),
                                          valued_rv remaining_ifelse (fst (snd (snd x)))))
                                    (zip remaining_ifelses remaining_vars),
                                then_slots @ else_slots)))))"

section \<open>Runtime shapes of index expressions\<close>

text \<open>
  What the expanded indices are at run time is a matter of shapes.  A shape is a list of
  dimension lengths.  The shapes of the index variables and the values of the shape
  entries come from outside (\<open>sv\<close> and \<open>dv\<close>).  \<open>slice_length a b c n\<close> is Python's
  \<^verbatim>\<open>len(range(*slice(a, b, c).indices(n)))\<close>, the number of entries of the canonical slice.
  Broadcasting follows the array library: shapes are aligned at their last dimension, and
  in every column the lengths other than 1 must agree.
\<close>

definition slice_length :: "int option \<Rightarrow> int option \<Rightarrow> int option \<Rightarrow> int \<Rightarrow> nat" where
  "slice_length a b c n =
     (let step = (case c of None \<Rightarrow> 1 | Some s \<Rightarrow> s);
          lower = (if step < 0 then - 1 else 0);
          upper = (if step < 0 then n - 1 else n);
          clip = (\<lambda>x. if x < 0 then max (x + n) lower else min x upper);
          start = (case a of None \<Rightarrow> (if step < 0 then upper else lower) | Some x \<Rightarrow> clip x);
          stop = (case b of None \<Rightarrow> (if step < 0 then lower else upper) | Some x \<Rightarrow> clip x)
      in if 0 < step \<and> start < stop then nat ((stop - start - 1) div step + 1)
         else if step < 0 \<and> stop < start then nat ((start - stop - 1) div (- step) + 1)
         else 0)"

definition pad_shape :: "nat \<Rightarrow> nat list \<Rightarrow> nat list" where
  "pad_shape n s = replicate (n - length s) 1 @ s"

definition broadcast_dim :: "nat list \<Rightarrow> nat option" where
  "broadcast_dim ds =
     (case filter (\<lambda>d. d \<noteq> 1) ds of
        [] \<Rightarrow> Some 1
      | d # rest \<Rightarrow> if list_all (\<lambda>x. x = d) rest then Some d else None)"

definition broadcast_shapes :: "nat list list \<Rightarrow> nat list option" where
  "broadcast_shapes ss =
     (let n = foldr max (map length ss) 0
      in those (map (\<lambda>k. broadcast_dim (map (\<lambda>s. pad_shape n s ! k) ss)) [0..<n]))"

fun rshape :: "(var \<Rightarrow> nat list) \<Rightarrow> (texpr \<Rightarrow> int) \<Rightarrow> texpr \<Rightarrow> nat list" where
  "rshape sv dv (V v) = sv v"
| "rshape sv dv (ArangeSlice a b c s) = [slice_length a b c (dv s)]"
| "rshape sv dv (NewAxesLeft k e) = replicate k 1 @ rshape sv dv e"
| "rshape sv dv (NewAxesRight e k) = rshape sv dv e @ replicate k 1"
| "rshape sv dv (BroadcastArrays es k) =
     (case broadcast_shapes (map (rshape sv dv) es) of Some c \<Rightarrow> c | None \<Rightarrow> [])"
| "rshape sv dv _ = []"

text \<open>
  The shapes of the advanced indices of an index tuple, and what the expander needs of an
  index: an advanced index is a tensor variable whose run-time shape has the rank of its
  type, a basic index is a new axis or a slice of literals.
\<close>

definition adv_shapes :: "(var \<Rightarrow> nat list) \<Rightarrow> index list \<Rightarrow> nat list list" where
  "adv_shapes sv indices =
     map (\<lambda>i. case i of Ix v \<Rightarrow> sv v | _ \<Rightarrow> []) (filter (\<lambda>i. \<not> is_basic_idx i) indices)"

definition valid_index :: "(var \<Rightarrow> nat list) \<Rightarrow> index \<Rightarrow> bool" where
  "valid_index sv i =
     (if is_basic_idx i
      then is_newaxis i
           \<or> (\<exists>a b c. i = PySlice a b c \<or> i = Ix (Constant SliceType (SliceData a b c)))
      else (\<exists>v dt b. i = Ix v \<and> type_of v = TensorType dt b \<and> length (sv v) = length b))"

subsection \<open>Notions used in the proofs about shapes\<close>

text \<open>
  \<open>cb F j\<close> counts the basic indices before position \<open>j\<close>.  \<open>gslot\<close> gives the shape the
  loop produces at a position, \<open>compat\<close> says that two shapes agree in every column
  where neither has length 1, \<open>win_start\<close> is the first column of the subspace of the
  advanced indices and \<open>basic_col\<close> the column a basic index occupies.
\<close>

definition cb :: "index list \<Rightarrow> nat \<Rightarrow> nat" where
  "cb F j = length (filter is_basic_idx (take j F))"

definition gslot ::
  "(var \<Rightarrow> nat list) \<Rightarrow> bool \<Rightarrow> nat \<Rightarrow> nat \<Rightarrow> nat \<Rightarrow> nat \<Rightarrow> nat \<Rightarrow> index list \<Rightarrow> nat \<Rightarrow> nat list \<Rightarrow> bool"
where
  "gslot sv moved fa nb ns d0 p0 F j shp \<longleftrightarrow>
     j < length F \<and> \<not> is_newaxis (F ! j) \<and>
     (if is_basic_idx (F ! j) then
        (\<exists>L. shp =
           (if moved then replicate (ns + (p0 + cb F j)) 1 @ [L] @ replicate (nb - (p0 + cb F j) - 1) 1
            else replicate ((if d0 + j > fa then ns else 0) + (p0 + cb F j)) 1 @ [L]
                 @ replicate (ns + nb - ((if d0 + j > fa then ns else 0) + (p0 + cb F j)) - 1) 1))
      else
        (\<exists>v. F ! j = Ix v \<and> shp =
           (if moved then sv v @ replicate nb 1
            else replicate (p0 + cb F j) 1 @ sv v @ replicate (nb - (p0 + cb F j)) 1)))"

definition well_typed_idx :: "nat \<Rightarrow> index \<Rightarrow> bool" where
  "well_typed_idx ns i \<longleftrightarrow>
     (if is_basic_idx i
      then is_newaxis i \<or> (\<exists>a b c. i = PySlice a b c \<or> i = Ix (Constant SliceType (SliceData a b c)))
      else (\<exists>v dt b. i = Ix v \<and> type_of v = TensorType dt b \<and> length b \<le> ns))"

definition compat :: "nat \<Rightarrow> nat list \<Rightarrow> nat list \<Rightarrow> bool" where
  "compat n s t \<longleftrightarrow>
     (\<forall>k<n. pad_shape n s ! k = 1 \<or> pad_shape n t ! k = 1 \<or> pad_shape n s ! k = pad_shape n t ! k)"

definition win_start :: "bool \<Rightarrow> nat \<Rightarrow> index list \<Rightarrow> nat" where
  "win_start moved fa F = (if moved then 0 else cb F fa)"

definition basic_col :: "bool \<Rightarrow> nat \<Rightarrow> nat \<Rightarrow> index list \<Rightarrow> nat \<Rightarrow> nat" where
  "basic_col moved fa ns F j =
     (if moved then ns + cb F j else (if j > fa then ns else 0) + cb F j)"

section \<open>Example graphs\<close>

text \<open>
  Two scalar measurable components stacked into a vector and indexed: by a scalar
  integer, by a boolean vector, by a signed and by an unsigned integer vector.
\<close>

definition ex_X :: var where
  "ex_X = Out (OtherOp ''normal_rv'' True) [] [TensorType ''float64'' []] 0"

definition ex_Y :: var where
  "ex_Y = Out (OtherOp ''gamma_rv'' True) [] [TensorType ''float64'' []] 0"

definition ex_stack :: var where
  "ex_stack = Out MakeVector [ex_X, ex_Y] [TensorType ''float64'' [False]] 0"

definition ex_I :: var where
  "ex_I = Variable (TensorType ''int64'' []) ''I''"

definition ex_B :: var where
  "ex_B = Variable (TensorType ''bool'' [False]) ''B''"

definition ex_J :: var where
  "ex_J = Variable (TensorType ''int64'' [False]) ''J''"

definition ex_U :: var where
  "ex_U = Variable (TensorType ''uint8'' [False]) ''U''"

definition ex_scalar_node :: Apply where
  "ex_scalar_node =
     \<lparr>op = Subtensor, inputs = [ex_stack, ex_I], out_types = [TensorType ''float64'' []]\<rparr>"

definition ex_bool_node :: Apply where
  "ex_bool_node =
     \<lparr>op = AdvancedSubtensor, inputs = [ex_stack, ex_B],
      out_types = [TensorType ''float64'' [False]]\<rparr>"

definition ex_int_node :: Apply where
  "ex_int_node =
     \<lparr>op = AdvancedSubtensor1, inputs = [ex_stack, ex_J],
      out_types = [TensorType ''float64'' [False]]\<rparr>"

definition ex_uint_node :: Apply where
  "ex_uint_node =
     \<lparr>op = AdvancedSubtensor1, inputs = [ex_stack, ex_U],
      out_types = [TensorType ''float64'' [False]]\<rparr>"

text \<open>A switch between two measurable vectors on a plain boolean condition.\<close>

definition ex_cond :: var where
  "ex_cond = Variable (TensorType ''bool'' [False]) ''cond''"

definition ex_T :: var where
  "ex_T = Out (OtherOp ''normal_rv'' True) [] [TensorType ''float64'' [False]] 0"

definition ex_F :: var where
  "ex_F = Out (OtherOp ''laplace_rv'' True) [] [TensorType ''float64'' [False]] 0"

definition ex_switch_node :: Apply where
  "ex_switch_node =
     \<lparr>op = Switch, inputs = [ex_cond, ex_T, ex_F],
      out_types = [TensorType ''float64'' [False]]\<rparr>"

text \<open>An observed value and an interpretation of the leaves, with integer densities.\<close>

definition ex_val :: var where
  "ex_val = Variable (TensorType ''float64'' []) ''value''"

definition ex_interp :: "int interp" where
  "ex_interp =
     \<lparr>int_val = (\<lambda>_. 1), cond_at = (\<lambda>_ _. True),
      logp_at = (\<lambda>rv v p. if rv = V ex_Y \<or> rv = V ex_F then 7 else 5)\<rparr>"

text \<open>
  A conditional with two valued outputs, the second then branch depending on the first;
  and one whose first then branch depends on the second else branch.
\<close>

definition ex_c :: var where "ex_c = Variable (TensorType ''bool'' []) ''c''"
definition ex_A1 :: var where
  "ex_A1 = Out (OtherOp ''normal_rv'' True) [] [TensorType ''float64'' []] 0"
definition ex_B1 :: var where
  "ex_B1 = Out (OtherOp ''laplace_rv'' True) [] [TensorType ''float64'' []] 0"
definition ex_A2 :: var where
  "ex_A2 = Out (OtherOp ''normal_rv'' True) [ex_A1] [TensorType ''float64'' []] 0"
definition ex_B2 :: var where
  "ex_B2 = Out (OtherOp ''exponential_rv'' True) [] [TensorType ''float64'' []] 0"
definition ex_v1 :: var where "ex_v1 = Variable (TensorType ''float64'' []) ''v1''"
definition ex_v2 :: var where "ex_v2 = Variable (TensorType ''float64'' []) ''v2''"

definition ex_ifelse_node :: Apply where
  "ex_ifelse_node =
     \<lparr>op = IfElse 2, inputs = [ex_c, ex_A1, ex_A2, ex_B1, ex_B2],
      out_types = [TensorType ''float64'' [], TensorType ''float64'' []]\<rparr>"

definition ex_valued1 :: Apply where
  "ex_valued1 = \<lparr>op = ValuedRV, inputs = [outputs ex_ifelse_node ! 0, ex_v1],
                 out_types = [TensorType ''float64'' []]\<rparr>"
definition ex_valued2 :: Apply where
  "ex_valued2 = \<lparr>op = ValuedRV, inputs = [outputs ex_ifelse_node ! 1, ex_v2],
                 out_types = [TensorType ''float64'' []]\<rparr>"

definition ex_fgraph :: FunctionGraph where
  "ex_fgraph =
     \<lparr>related_valued_nodes = (\<lambda>n. if n = ex_ifelse_node then [ex_valued2, ex_valued1] else []),
      toposort = [make_node (OtherOp ''normal_rv'' True) [] [TensorType ''float64'' []], make_node (OtherOp ''laplace_rv'' True) [] [TensorType ''float64'' []], make_node (OtherOp ''normal_rv'' True) [ex_A1] [TensorType ''float64'' []], make_node (OtherOp ''exponential_rv'' True) [] [TensorType ''float64'' []],
                  ex_ifelse_node, ex_valued1, ex_valued2]\<rparr>"


definition ex_A1c :: var where
  "ex_A1c = Out (OtherOp ''normal_rv'' True) [ex_B2] [TensorType ''float64'' []] 0"
definition ex_conflict_node :: Apply where
  "ex_conflict_node =
     \<lparr>op = IfElse 2, inputs = [ex_c, ex_A1c, ex_A2, ex_B1, ex_B2],
      out_types = [TensorType ''float64'' [], TensorType ''float64'' []]\<rparr>"
definition ex_cvalued1 :: Apply where
  "ex_cvalued1 = \<lparr>op = ValuedRV, inputs = [outputs ex_conflict_node ! 0, ex_v1],
                 out_types = [TensorType ''float64'' []]\<rparr>"
definition ex_cvalued2 :: Apply where
  "ex_cvalued2 = \<lparr>op = ValuedRV, inputs = [outputs ex_conflict_node ! 1, ex_v2],
                 out_types = [TensorType ''float64'' []]\<rparr>"
definition ex_conflict_fgraph :: FunctionGraph where
  "ex_conflict_fgraph =
     \<lparr>related_valued_nodes = (\<lambda>n. if n = ex_conflict_node then [ex_cvalued1, ex_cvalued2] else []),
      toposort = [make_node (OtherOp ''exponential_rv'' True) [] [TensorType ''float64'' []], make_node (OtherOp ''normal_rv'' True) [ex_B2] [TensorType ''float64'' []], make_node (OtherOp ''laplace_rv'' True) [] [TensorType ''float64'' []], make_node (OtherOp ''normal_rv'' True) [] [TensorType ''float64'' []],
                  make_node (OtherOp ''normal_rv'' True) [ex_A1] [TensorType ''float64'' []], ex_conflict_node, ex_cvalued1, ex_cvalued2]\<rparr>"

text \<open>A second integer vector, and two assignments of run-time shapes.\<close>

definition ex_K :: var where "ex_K = Variable (TensorType ''int64'' [False]) ''K''"

definition ex_sv :: "var \<Rightarrow> nat list" where
  "ex_sv v = (if v = ex_J then [2] else if v = ex_K then [3] else [])"

definition ex_sv_ok :: "var \<Rightarrow> nat list" where
  "ex_sv_ok v = (if v = ex_J then [2] else if v = ex_K then [1] else [])"

text \<open>
  Two stacks of measurable components of rank 3 indexed by two scalars, one joined along
  the axis 1 and one along the axis 0, with the expanded indices of each and the entries
  these hold for \<open>R = 2\<close>, \<open>I = 1\<close> and components of extent 2 along the last axis; and two
  measurable matrices, which two scalars index completely.
\<close>

definition ex_R :: var where
  "ex_R = Variable (TensorType ''int64'' []) ''R''"

definition ex_axis1 :: var where
  "ex_axis1 = Constant (TensorType ''int64'' []) (IntData 1)"

definition ex_X3 :: var where
  "ex_X3 = Out (OtherOp ''normal_rv'' True) [] [TensorType ''float64'' [False, True, False]] 0"

definition ex_Y3 :: var where
  "ex_Y3 = Out (OtherOp ''gamma_rv'' True) [] [TensorType ''float64'' [False, True, False]] 0"

definition ex_axis1_node :: Apply where
  "ex_axis1_node =
     \<lparr>op = Subtensor,
      inputs = [Out Join [ex_axis1, ex_X3, ex_Y3] [TensorType ''float64'' [False, False, False]] 0,
                ex_R, ex_I],
      out_types = [TensorType ''float64'' [False]]\<rparr>"

definition ex_vec_val :: var where
  "ex_vec_val = Variable (TensorType ''float64'' [False]) ''value''"

definition ex_e :: "nat \<Rightarrow> texpr" where
  "ex_e k = BroadcastArrays
              [NewAxesRight (NewAxesLeft 0 (V ex_R)) 1,
               NewAxesRight (NewAxesLeft 0 (V ex_I)) 1,
               NewAxesRight (NewAxesLeft 0
                 (ArangeSlice None None None (ShapeDim (V ex_X3) 2))) 0] k"

definition ex_on :: "int \<Rightarrow> texpr" where
  "ex_on m = Nonzero (Eq (ex_e 1) (PyInt m))"

definition ex_axis1_graph :: texpr where
  "ex_axis1_graph =
     SetSubtensor
       (SetSubtensor (Empty (Shape (ex_e 0))) (ex_on 0)
          (LogProb
             (RvPullDown
                (GetItems (Item0 (V ex_X3))
                   [GetTuple (ex_e 0) (ex_on 0), GetTuple (ex_e 2) (ex_on 0)]))
             (GetTuple (V ex_vec_val) (ex_on 0))))
       (ex_on 1)
       (LogProb
          (RvPullDown
             (GetItems (Item0 (V ex_Y3))
                [GetTuple (ex_e 0) (ex_on 1), GetTuple (ex_e 2) (ex_on 1)]))
          (GetTuple (V ex_vec_val) (ex_on 1)))"

definition ex_iv :: "texpr \<Rightarrow> int list" where
  "ex_iv e = (if e = ex_e 0 then [2, 2] else if e = ex_e 1 then [1, 1]
              else if e = ex_e 2 then [0, 1] else [])"

definition ex_axis0 :: var where
  "ex_axis0 = Constant (TensorType ''int64'' []) (IntData 0)"

definition ex_X0 :: var where
  "ex_X0 = Out (OtherOp ''normal_rv'' True) [] [TensorType ''float64'' [True, False]] 0"

definition ex_Y0 :: var where
  "ex_Y0 = Out (OtherOp ''gamma_rv'' True) [] [TensorType ''float64'' [True, False]] 0"

definition ex_X4 :: var where
  "ex_X4 = Out (OtherOp ''normal_rv'' True) [] [TensorType ''float64'' [True, False, False]] 0"

definition ex_Y4 :: var where
  "ex_Y4 = Out (OtherOp ''gamma_rv'' True) [] [TensorType ''float64'' [True, False, False]] 0"

definition ex_f :: "nat \<Rightarrow> texpr" where
  "ex_f k = BroadcastArrays
              [NewAxesRight (NewAxesLeft 0 (V ex_I)) 1,
               NewAxesRight (NewAxesLeft 0 (V ex_R)) 1,
               NewAxesRight (NewAxesLeft 0
                 (ArangeSlice None None None (ShapeDim (V ex_X4) 2))) 0] k"

definition ex_iv0 :: "texpr \<Rightarrow> int list" where
  "ex_iv0 e = (if e = ex_f 0 then [1, 1] else if e = ex_f 1 then [2, 2]
               else if e = ex_f 2 then [0, 1] else [])"


definition ex_gt :: var where
  "ex_gt = Out (OtherOp ''gt'' False) [ex_A1] [TensorType ''bool'' []] 0"
definition ex_shared_node :: Apply where
  "ex_shared_node =
     \<lparr>op = IfElse 2, inputs = [ex_gt, ex_A1, ex_B2, ex_B1, ex_B2],
      out_types = [TensorType ''float64'' [], TensorType ''float64'' []]\<rparr>"
definition ex_svalued1 :: Apply where
  "ex_svalued1 = \<lparr>op = ValuedRV, inputs = [outputs ex_shared_node ! 0, ex_v1],
                 out_types = [TensorType ''float64'' []]\<rparr>"
definition ex_svalued2 :: Apply where
  "ex_svalued2 = \<lparr>op = ValuedRV, inputs = [outputs ex_shared_node ! 1, ex_v2],
                 out_types = [TensorType ''float64'' []]\<rparr>"
definition ex_shared_fgraph :: FunctionGraph where
  "ex_shared_fgraph =
     \<lparr>related_valued_nodes = (\<lambda>n. if n = ex_shared_node then [ex_svalued1, ex_svalued2] else []),
      toposort = [make_node (OtherOp ''normal_rv'' True) [] [TensorType ''float64'' []],
                  make_node (OtherOp ''gt'' False) [ex_A1] [TensorType ''bool'' []],
                  make_node (OtherOp ''laplace_rv'' True) [] [TensorType ''float64'' []],
                  make_node (OtherOp ''exponential_rv'' True) [] [TensorType ''float64'' []],
                  ex_shared_node, ex_svalued1, ex_svalued2]\<rparr>"

lemmas ex_defs =
  ex_X_def ex_Y_def ex_stack_def ex_I_def ex_B_def ex_J_def ex_U_def
  ex_scalar_node_def ex_bool_node_def ex_int_node_def ex_uint_node_def
  ex_cond_def ex_T_def ex_F_def ex_switch_node_def

section \<open>Properties of the index-mixture matcher\<close>

lemma default_output_InrD:
  "default_output node = Inr v \<Longrightarrow>
     \<exists>t. out_types node = [t] \<and> v = Out (op node) (inputs node) [t] 0"
  by (cases "out_types node"; cases "tl (out_types node)")
     (auto simp: default_output_def outputs_def upt_rec split: list.splits)

lemma default_output_single:
  "out_types node = [t] \<Longrightarrow> default_output node = Inr (Out (op node) (inputs node) [t] 0)"
  by (simp add: default_output_def outputs_def)

lemma find_index_mixture_SomeD:
  assumes "find_measurable_index_mixture folds node = Inr (Some new)"
  shows "\<exists>comps axis dt bc.
      get_stack_mixture_vars folds node = Inr (Some comps, Some axis)
    \<and> isinstance_Constant axis
    \<and> (\<forall>c\<in>set comps. measurable c)
    \<and> out_types node = [TensorType dt bc]
    \<and> new = Out (MixtureRV (1 + length (tl (inputs node))) dt bc)
               (axis # tl (inputs node) @ comps) [TensorType dt bc] 0"
  using assms
  apply (simp add: find_measurable_index_mixture_def Let_def
      split: if_splits sum.splits bool.splits option.splits prod.splits)
  apply (auto dest!: default_output_InrD
      simp: dtype_def broadcastable_def make_node_def filter_measurable_variables_def
      split: vtype.splits)
  done

lemma n_non_broadcastable_pos: "n_non_broadcastable bs > 0 \<longleftrightarrow> (\<exists>b\<in>set bs. \<not> b)"
proof -
  have "n_non_broadcastable bs \<ge> 0 \<and> (n_non_broadcastable bs > 0 \<longleftrightarrow> (\<exists>b\<in>set bs. \<not> b))"
    by (induction bs) (auto simp: n_non_broadcastable_def)
  then show ?thesis by simp
qed

lemma guard_rejects_only:
  "any_repeating_index idxs = Inr True \<Longrightarrow>
     \<exists>i\<in>set idxs. \<exists>d bs. type_of i = TensorType d bs \<and> startswith d ''int'' \<and> (\<exists>b\<in>set bs. \<not> b)"
  by (induction idxs)
     (auto simp: dtype_def broadcastable_def n_non_broadcastable_pos
           split: if_splits sum.splits vtype.splits)

lemma guard_passes:
  assumes "\<forall>i\<in>set idxs. isinstance_SliceConstant i
            \<or> (\<exists>d bs. type_of i = TensorType d bs
                  \<and> (\<not> startswith d ''int'' \<or> (\<forall>b\<in>set bs. b)))"
  shows "any_repeating_index idxs = Inr False"
  using assms
  by (induction idxs)
     (auto simp: dtype_def broadcastable_def n_non_broadcastable_pos
           split: if_splits sum.splits vtype.splits)

lemma unwrap_all_measurable:
  "\<forall>c\<in>set cs. measurable c \<Longrightarrow> unwrap_all cs = Inr cs"
  by (induction cs) (auto simp: unwrap_promised_def measurable_def split: option.splits)

lemma stack_match:
  assumes "op node \<in> set subtensor_ops"
    and "inputs node = Out MakeVector comps ts k # idxs"
    and "\<forall>c\<in>set comps. measurable c"
    and "out_types node = [TensorType dt bc]"
    and "op node = AdvancedSubtensor \<or> op node = AdvancedSubtensor1
           \<Longrightarrow> any_repeating_index idxs = Inr False"
  shows "find_measurable_index_mixture folds node =
           Inr (Some (Out (MixtureRV (1 + length idxs) dt bc) (NoneConst # idxs @ comps)
                        [TensorType dt bc] 0))"
proof -
  have s: "get_stack_mixture_vars folds node = Inr (Some comps, Some NoneConst)"
    using assms(1,2,3) by (auto simp: get_stack_mixture_vars_def unwrap_all_measurable)
  have d: "default_output node = Inr (Out (op node) (inputs node) [TensorType dt bc] 0)"
    using assms(4) by (rule default_output_single)
  show ?thesis
    using assms(1,2,3,5) s d
    by (auto simp: find_measurable_index_mixture_def isinstance_Constant_def NoneConst_def
         filter_measurable_variables_def dtype_def broadcastable_def make_node_def
         default_output_def outputs_def)
qed

text \<open>
  Claim C7, as amended.  On every successful match the result is one output of a
  \<open>MixtureRV\<close> node whose \<^verbatim>\<open>indices_end_idx\<close> is one more than the number of index
  arguments of the indexing node, whose dtype and broadcast pattern are those of the
  indexing node's output, and whose inputs are the join axis, then the indices, then the
  components.  So \<^verbatim>\<open>indices_end_idx\<close> is at least 1 and the number of components is the
  number of inputs minus \<^verbatim>\<open>indices_end_idx\<close>.
\<close>
theorem mixture_placeholder_layout:
  assumes "find_measurable_index_mixture folds node = Inr (Some new)"
  shows "\<exists>join_axis comps dt bc old n k.
       get_stack_mixture_vars folds node = Inr (Some comps, Some join_axis)
     \<and> default_output node = Inr old \<and> type_of old = TensorType dt bc
     \<and> owner new = Some n \<and> type_of new = TensorType dt bc
     \<and> op n = MixtureRV k dt bc
     \<and> k = 1 + length (tl (inputs node))
     \<and> inputs n = [join_axis] @ tl (inputs node) @ comps
     \<and> 1 \<le> k
     \<and> int (length comps) = int (length (inputs n)) - int k"
proof -
  from find_index_mixture_SomeD[OF assms] obtain comps axis dt bc where
    h: "get_stack_mixture_vars folds node = Inr (Some comps, Some axis)"
       "out_types node = [TensorType dt bc]"
       "new = Out (MixtureRV (1 + length (tl (inputs node))) dt bc)
               (axis # tl (inputs node) @ comps) [TensorType dt bc] 0"
    by blast
  show ?thesis
    apply (rule exI[of _ axis], rule exI[of _ comps], rule exI[of _ dt], rule exI[of _ bc])
    apply (rule exI[of _ "Out (op node) (inputs node) [TensorType dt bc] 0"])
    using h by (simp add: default_output_single)
qed

lemma ex_scalar_match:
  "find_measurable_index_mixture (\<lambda>_. None) ex_scalar_node =
     Inr (Some (Out (MixtureRV 2 ''float64'' []) [NoneConst, ex_I, ex_X, ex_Y]
                  [TensorType ''float64'' []] 0))"
  by (rule trans[OF stack_match[where comps="[ex_X, ex_Y]" and idxs="[ex_I]"]])
     (simp_all add: ex_defs subtensor_ops_def measurable_def)

theorem mixture_placeholder_layout_witness:
  "find_measurable_index_mixture (\<lambda>_. None) ex_scalar_node =
     Inr (Some (Out (MixtureRV 2 ''float64'' []) [NoneConst, ex_I, ex_X, ex_Y]
                  [TensorType ''float64'' []] 0))
   \<and> (\<exists>join_axis comps dt bc old n k.
       get_stack_mixture_vars (\<lambda>_. None) ex_scalar_node = Inr (Some comps, Some join_axis)
     \<and> default_output ex_scalar_node = Inr old \<and> type_of old = TensorType dt bc
     \<and> owner (Out (MixtureRV 2 ''float64'' []) [NoneConst, ex_I, ex_X, ex_Y]
                  [TensorType ''float64'' []] 0) = Some n
     \<and> type_of (Out (MixtureRV 2 ''float64'' []) [NoneConst, ex_I, ex_X, ex_Y]
                  [TensorType ''float64'' []] 0) = TensorType dt bc
     \<and> op n = MixtureRV k dt bc
     \<and> k = 1 + length (tl (inputs ex_scalar_node))
     \<and> inputs n = [join_axis] @ tl (inputs ex_scalar_node) @ comps
     \<and> 1 \<le> k
     \<and> int (length comps) = int (length (inputs n)) - int k)"
  using mixture_placeholder_layout[OF ex_scalar_match] ex_scalar_match by blast

text \<open>
  Claim C7 as the spec words it has the number of components equal to the number of
  inputs minus one minus the index count.  On the stack of two components indexed by one
  scalar the placeholder has four inputs and \<^verbatim>\<open>indices_end_idx = 2\<close>, and two
  components, not one.
\<close>

theorem placeholder_component_count_counterexample:
  "find_measurable_index_mixture (\<lambda>_. None) ex_scalar_node =
     Inr (Some (Out (MixtureRV 2 ''float64'' []) [NoneConst, ex_I, ex_X, ex_Y]
                  [TensorType ''float64'' []] 0))
   \<and> get_stack_mixture_vars (\<lambda>_. None) ex_scalar_node = Inr (Some [ex_X, ex_Y], Some NoneConst)
   \<and> int (length [ex_X, ex_Y]) \<noteq> int (length [NoneConst, ex_I, ex_X, ex_Y]) - 1 - int 2"
  using ex_scalar_match
  by (simp add: get_stack_mixture_vars_def ex_defs subtensor_ops_def unwrap_promised_def)

text \<open>
  Claim C10.  The guard against repeated selection answers "reject" only when some index
  is a tensor whose dtype name starts with \<^verbatim>\<open>int\<close> and which has a non-broadcastable
  dimension.  Slice constants, boolean tensors of any shape and integer tensors all of
  whose dimensions are broadcastable pass it.  Hence an advanced indexing of a stack of
  measurable components by boolean arrays is matched as a mixture.
\<close>
theorem repeated_index_guard_scope:
  "(any_repeating_index idxs = Inr True \<longrightarrow>
      (\<exists>i\<in>set idxs. \<exists>d bs. type_of i = TensorType d bs \<and> startswith d ''int''
                        \<and> (\<exists>b\<in>set bs. \<not> b)))
   \<and> ((\<forall>i\<in>set idxs'. isinstance_SliceConstant i
            \<or> (\<exists>bs. type_of i = TensorType ''bool'' bs)
            \<or> (\<exists>d bs. type_of i = TensorType d bs \<and> startswith d ''int'' \<and> (\<forall>b\<in>set bs. b)))
        \<longrightarrow> any_repeating_index idxs' = Inr False)
   \<and> ((op node = AdvancedSubtensor \<or> op node = AdvancedSubtensor1)
        \<and> inputs node = Out MakeVector comps ts k # bidxs
        \<and> (\<forall>c\<in>set comps. measurable c)
        \<and> (\<forall>i\<in>set bidxs. \<exists>bs. type_of i = TensorType ''bool'' bs)
        \<and> out_types node = [TensorType dt bc]
        \<longrightarrow> find_measurable_index_mixture folds node =
              Inr (Some (Out (MixtureRV (1 + length bidxs) dt bc) (NoneConst # bidxs @ comps)
                           [TensorType dt bc] 0)))"
proof (intro conjI impI)
  assume "any_repeating_index idxs = Inr True"
  then show "\<exists>i\<in>set idxs. \<exists>d bs. type_of i = TensorType d bs \<and> startswith d ''int''
                        \<and> (\<exists>b\<in>set bs. \<not> b)"
    by (rule guard_rejects_only)
next
  assume a: "\<forall>i\<in>set idxs'. isinstance_SliceConstant i
            \<or> (\<exists>bs. type_of i = TensorType ''bool'' bs)
            \<or> (\<exists>d bs. type_of i = TensorType d bs \<and> startswith d ''int'' \<and> (\<forall>b\<in>set bs. b))"
  show "any_repeating_index idxs' = Inr False"
  proof (rule guard_passes, rule ballI)
    fix i assume "i \<in> set idxs'"
    with a have "isinstance_SliceConstant i
            \<or> (\<exists>bs. type_of i = TensorType ''bool'' bs)
            \<or> (\<exists>d bs. type_of i = TensorType d bs \<and> startswith d ''int'' \<and> (\<forall>b\<in>set bs. b))"
      by blast
    then show "isinstance_SliceConstant i
            \<or> (\<exists>d bs. type_of i = TensorType d bs
                  \<and> (\<not> startswith d ''int'' \<or> (\<forall>b\<in>set bs. b)))"
      by (auto simp: startswith_def)
  qed
next
  assume a: "(op node = AdvancedSubtensor \<or> op node = AdvancedSubtensor1)
        \<and> inputs node = Out MakeVector comps ts k # bidxs
        \<and> (\<forall>c\<in>set comps. measurable c)
        \<and> (\<forall>i\<in>set bidxs. \<exists>bs. type_of i = TensorType ''bool'' bs)
        \<and> out_types node = [TensorType dt bc]"
  have g: "any_repeating_index bidxs = Inr False"
    using a by (intro guard_passes) (auto simp: startswith_def)
  show "find_measurable_index_mixture folds node =
              Inr (Some (Out (MixtureRV (1 + length bidxs) dt bc) (NoneConst # bidxs @ comps)
                           [TensorType dt bc] 0))"
    using a g by (intro stack_match) (auto simp: subtensor_ops_def)
qed

theorem repeated_index_guard_scope_witness:
  "any_repeating_index [ex_J] = Inr True
   \<and> (\<exists>i\<in>set [ex_J]. \<exists>d bs. type_of i = TensorType d bs \<and> startswith d ''int''
                        \<and> (\<exists>b\<in>set bs. \<not> b))
   \<and> any_repeating_index [ex_B, Constant SliceType (SliceData None None None), ex_I] = Inr False
   \<and> find_measurable_index_mixture (\<lambda>_. None) ex_bool_node =
        Inr (Some (Out (MixtureRV 2 ''float64'' [False]) [NoneConst, ex_B, ex_X, ex_Y]
                     [TensorType ''float64'' [False]] 0))"
  using repeated_index_guard_scope[of "[ex_J]"
      "[ex_B, Constant SliceType (SliceData None None None), ex_I]"
      ex_bool_node "[ex_X, ex_Y]" "[TensorType ''float64'' [False]]" 0 "[ex_B]"
      "''float64''" "[False]" "\<lambda>_. None"]
  by (simp add: ex_defs dtype_def broadcastable_def startswith_def n_non_broadcastable_def
       isinstance_SliceConstant_def measurable_def)

section \<open>Properties of the matchers: no-match conditions\<close>

text \<open>
  Claim C5 has the matcher answer "no match" whenever a mixing index is a non-scalar
  integer array.  The guard reads the dtype name: a vector of \<^verbatim>\<open>uint8\<close> indices, which
  selects repeatedly just as a vector of \<^verbatim>\<open>int64\<close> indices does, is not rejected, and
  the stack it indexes is matched.  The same stack indexed by the \<^verbatim>\<open>int64\<close> vector is
  rejected.
\<close>
theorem unsigned_index_array_is_matched:
  "find_measurable_index_mixture (\<lambda>_. None) ex_uint_node =
     Inr (Some (Out (MixtureRV 2 ''float64'' [False]) [NoneConst, ex_U, ex_X, ex_Y]
                  [TensorType ''float64'' [False]] 0))
   \<and> find_measurable_index_mixture (\<lambda>_. None) ex_int_node = Inr None"
  by (simp add: find_measurable_index_mixture_def get_stack_mixture_vars_def ex_defs
      subtensor_ops_def unwrap_promised_def dtype_def broadcastable_def startswith_def
      n_non_broadcastable_def isinstance_SliceConstant_def default_output_def outputs_def
      isinstance_Constant_def NoneConst_def filter_measurable_variables_def measurable_def
      make_node_def)

text \<open>
  Claim C6.  On a switch node over a condition and two tensor branches, the rewriter
  answers with one measurable switch over the same three inputs when both branches have
  the broadcast pattern of the output, both are measurable and the condition is not
  potentially measurable; otherwise it answers "no match".
\<close>
theorem switch_mixture_match_iff:
  assumes "op node = Switch" and "inputs node = [c, t, f]"
    and "out_types node = [TensorType dt bc]"
    and "type_of t = TensorType dt1 b1" and "type_of f = TensorType dt2 b2"
  shows "find_measurable_switch_mixture cpm node =
     (if b1 = bc \<and> b2 = bc \<and> measurable t \<and> measurable f \<and> \<not> cpm [c]
      then Inr (Some [Out MeasurableSwitchMixture [c, t, f] [TensorType dt bc] 0])
      else Inr None)"
  using assms
  by (auto simp: find_measurable_switch_mixture_def outputs_def upt_rec broadcastable_def
      filter_measurable_variables_def)

theorem switch_mixture_match_iff_witness:
  "op ex_switch_node = Switch \<and> inputs ex_switch_node = [ex_cond, ex_T, ex_F]
   \<and> find_measurable_switch_mixture (\<lambda>_. False) ex_switch_node =
       Inr (Some [Out MeasurableSwitchMixture [ex_cond, ex_T, ex_F]
                    [TensorType ''float64'' [False]] 0])
   \<and> find_measurable_switch_mixture (\<lambda>_. True) ex_switch_node = Inr None"
  using switch_mixture_match_iff[of ex_switch_node ex_cond ex_T ex_F "''float64''" "[False]"
      "''float64''" "[False]" "''float64''" "[False]" "\<lambda>_. False"]
    switch_mixture_match_iff[of ex_switch_node ex_cond ex_T ex_F "''float64''" "[False]"
      "''float64''" "[False]" "''float64''" "[False]" "\<lambda>_. True"]
  by (simp add: ex_defs measurable_def)

section \<open>Properties of the density derivers\<close>

text \<open>
  Claim C4.  The density graph of a measurable switch is one \<^verbatim>\<open>switch\<close> of the
  condition over the densities of the two branches at the value, and that of a
  measurable single-output if-else is one \<^verbatim>\<open>ifelse\<close> over them.  At every position where
  the condition holds the density is that of the true branch, where it does not that of
  the false branch; the other branch contributes nothing.
\<close>

theorem conditional_density_is_one_select:
  "logprob_switch_mixture f [value] c t e
     = Inr (TSwitch (V c) (LogProb (V t) value) (LogProb (V e) value))
   \<and> logprob_ifelse g [value] c t e
     = Inr (TIfElse (V c) (LogProb (V t) value) (LogProb (V e) value))
   \<and> (\<forall>sw. logprob_switch_mixture f [value] c t e = Inr sw \<longrightarrow>
        (\<forall>p. dens_at I sw p
              = (if cond_at I c p then logp_at I (V t) value p else logp_at I (V e) value p)))
   \<and> (\<forall>ie. logprob_ifelse g [value] c t e = Inr ie \<longrightarrow>
        (\<forall>p. dens_at I ie p
              = (if cond_at I c [] then logp_at I (V t) value p else logp_at I (V e) value p)))"
  by (auto simp: logprob_switch_mixture_def logprob_ifelse_def logprob_helper_def)

theorem conditional_density_is_one_select_witness:
  "logprob_switch_mixture MeasurableSwitchMixture [V ex_val] ex_cond ex_T ex_F
     = Inr (TSwitch (V ex_cond) (LogProb (V ex_T) (V ex_val)) (LogProb (V ex_F) (V ex_val)))
   \<and> logprob_ifelse (MeasurableIfElse 1) [V ex_val] ex_cond ex_T ex_F
     = Inr (TIfElse (V ex_cond) (LogProb (V ex_T) (V ex_val)) (LogProb (V ex_F) (V ex_val)))
   \<and> dens_at ex_interp
        (TSwitch (V ex_cond) (LogProb (V ex_T) (V ex_val)) (LogProb (V ex_F) (V ex_val))) [0] = 5
   \<and> dens_at ex_interp
        (TIfElse (V ex_cond) (LogProb (V ex_T) (V ex_val)) (LogProb (V ex_F) (V ex_val))) [0] = 5"
  using conditional_density_is_one_select[of MeasurableSwitchMixture "V ex_val" ex_cond ex_T ex_F
      "MeasurableIfElse 1" ex_interp]
  by (simp add: ex_interp_def ex_defs)

lemma scalar_loop_foldl:
  "scalar_loop index0 ax v i comps acc =
     foldl Add acc
       (map (selected_term index0)
          (zip [i..<i + length comps]
               (map (\<lambda>c. case ax of None \<Rightarrow> LogProb (V c) v | Some a \<Rightarrow> Squeeze (LogProb (V c) v) a)
                  comps)))"
proof (induction comps arbitrary: i acc)
  case Nil
  then show ?case by simp
next
  case (Cons c comps)
  have u: "[i..<i + length (c # comps)] = i # [Suc i..<Suc i + length comps]"
    by (simp add: upt_rec)
  show ?case
    unfolding u
    by (simp add: Cons.IH logprob_helper_def selected_term_def Let_def split: option.splits)
qed

lemma dens_scalar_loop:
  "dens_at I (scalar_loop index0 ax v i comps acc) p =
     (if int i \<le> int_val I index0 \<and> int_val I index0 < int i + int (length comps)
      then dens_at I acc p
           + dens_at I (case ax of None \<Rightarrow> LogProb (V (comps ! (nat (int_val I index0) - i))) v
                        | Some a \<Rightarrow> Squeeze (LogProb (V (comps ! (nat (int_val I index0) - i))) v) a) p
      else dens_at I acc p)"
proof (induction comps arbitrary: i acc)
  case Nil
  then show ?case by auto
next
  case (Cons c comps)
  show ?case
  proof (cases "int_val I index0 = int i")
    case True
    then show ?thesis
      by (simp add: Cons.IH logprob_helper_def Let_def split: option.splits)
  next
    case False
    have n: "int i \<le> int_val I index0 \<Longrightarrow> nat (int_val I index0) - i = Suc (nat (int_val I index0) - Suc i)"
      using False by linarith
    show ?thesis
      using False
      by (auto simp: Cons.IH logprob_helper_def Let_def n split: option.splits)
  qed
qed

lemma scalar_regime_graph:
  assumes "type_of index0 = TensorType dt []"
    and "(join_axis = NoneConst \<and> ax = None)
         \<or> (\<exists>ty a. join_axis = Constant ty (IntData a) \<and> ty \<noteq> NoneTypeT \<and> ax = Some a)"
  shows "logprob_MixtureRV folds (MixtureRV 2 odt obc) [value] (join_axis # index0 # comps)
           = Inr (scalar_loop index0 ax (case ax of None \<Rightarrow> value | Some a \<Rightarrow> ExpandDims value a)
                    0 comps FloatZero)"
  using assms
  by (auto simp: logprob_MixtureRV_def ndim_def NoneConst_def Let_def)

text \<open>
  Claim C2.  In the scalar regime (one index argument of rank 0) the density graph is
  the sum over the components \<open>i\<close> of \<^verbatim>\<open>ifelse(eq(index, i), density_i, zeros_like(density_i))\<close>,
  where \<open>density_i\<close> is derived at the value, expanded along the join axis before and
  squeezed after when the join axis is a constant.  When the index evaluates to \<open>j\<close> in
  \<open>0..N-1\<close> the graph evaluates to the density of component \<open>j\<close>.
\<close>

theorem scalar_regime_density:
  assumes "type_of index0 = TensorType dt []"
    and "(join_axis = NoneConst \<and> ax = None)
         \<or> (\<exists>ty a. join_axis = Constant ty (IntData a) \<and> ty \<noteq> NoneTypeT \<and> ax = Some a)"
  shows "logprob_MixtureRV folds (MixtureRV 2 odt obc) [value] (join_axis # index0 # comps)
           = Inr (selected_sum index0 (map (component_density ax value) comps))
       \<and> (\<forall>lp. logprob_MixtureRV folds (MixtureRV 2 odt obc) [value] (join_axis # index0 # comps)
                  = Inr lp \<longrightarrow>
            (\<forall>j p. 0 \<le> j \<and> j < int (length comps) \<and> int_val I index0 = j \<longrightarrow>
               dens_at I lp p = dens_at I (component_density ax value (comps ! nat j)) p))"
proof -
  let ?v = "case ax of None \<Rightarrow> value | Some a \<Rightarrow> ExpandDims value a"
  have g: "logprob_MixtureRV folds (MixtureRV 2 odt obc) [value] (join_axis # index0 # comps)
           = Inr (scalar_loop index0 ax ?v 0 comps FloatZero)"
    using assms by (rule scalar_regime_graph)
  have m: "map (\<lambda>c. case ax of None \<Rightarrow> LogProb (V c) ?v | Some a \<Rightarrow> Squeeze (LogProb (V c) ?v) a) comps
           = map (component_density ax value) comps"
    by (auto simp: component_density_def split: option.splits)
  have s: "scalar_loop index0 ax ?v 0 comps FloatZero
           = selected_sum index0 (map (component_density ax value) comps)"
    unfolding scalar_loop_foldl m selected_sum_def by simp
  have d: "dens_at I (scalar_loop index0 ax ?v 0 comps FloatZero) p
           = dens_at I (component_density ax value (comps ! nat j)) p"
    if "0 \<le> j" "j < int (length comps)" "int_val I index0 = j" for j p
    using that by (simp add: dens_scalar_loop component_density_def split: option.splits)
  show ?thesis
    using g s d by auto
qed

theorem scalar_regime_density_witness:
  "type_of ex_I = TensorType ''int64'' []
   \<and> logprob_MixtureRV (\<lambda>_. None) (MixtureRV 2 ''float64'' []) [V ex_val]
        (NoneConst # ex_I # [ex_X, ex_Y])
      = Inr (selected_sum ex_I (map (component_density None (V ex_val)) [ex_X, ex_Y]))
   \<and> dens_at ex_interp (selected_sum ex_I (map (component_density None (V ex_val)) [ex_X, ex_Y])) []
      = 7"
  using scalar_regime_density[of ex_I "''int64''" NoneConst None "\<lambda>_. None" "''float64''" "[]"
      "V ex_val" "[ex_X, ex_Y]" ex_interp]
  by (simp add: ex_interp_def ex_defs component_density_def)

section \<open>Properties of the splitter\<close>

lemmas ex_split_defs =
  ex_c_def ex_A1_def ex_B1_def ex_A2_def ex_B2_def ex_v1_def ex_v2_def ex_ifelse_node_def
  ex_valued1_def ex_valued2_def ex_fgraph_def ex_A1c_def ex_conflict_node_def
  ex_cvalued1_def ex_cvalued2_def ex_conflict_fgraph_def


lemma ex_conflict_candidates:
  "then_else_valued_outputs ex_conflict_fgraph ex_conflict_node 2 [ex_A1c, ex_A2, ex_B1, ex_B2]
     = Inr [(ex_A1c, ex_B1, ex_v1, Out ValuedRV [Out (IfElse 2) [ex_c, ex_A1c, ex_A2, ex_B1, ex_B2]
                 [TensorType ''float64'' [], TensorType ''float64'' []] 0, ex_v1]
                 [TensorType ''float64'' []] 0),
            (ex_A2, ex_B2, ex_v2, Out ValuedRV [Out (IfElse 2) [ex_c, ex_A1c, ex_A2, ex_B1, ex_B2]
                 [TensorType ''float64'' [], TensorType ''float64'' []] 1, ex_v2]
                 [TensorType ''float64'' []] 0)]"
  by (simp add: then_else_valued_outputs_def valued_entry_def sorted_by_topo_def topo_key_def
      ex_split_defs outputs_def make_node_def upt_rec Let_def)

lemma traverse_Inr:
  "traverse g xs = Inr ys \<Longrightarrow> list_all2 (\<lambda>x y. g x = Inr y) xs ys"
  by (induction xs arbitrary: ys) (auto split: sum.splits)

lemma topo_key_owner:
  "topo_key ts x = Inr k \<Longrightarrow> owner (fst x) \<noteq> None \<and> owner (fst (snd x)) \<noteq> None"
  by (auto simp: topo_key_def split: option.splits)

lemma sorted_by_topo_keys:
  assumes "sorted_by_topo ts xs = Inr zs" and "z \<in> set zs"
  shows "\<exists>k. topo_key ts z = Inr k"
proof -
  from assms(1) obtain keys where k: "traverse (topo_key ts) xs = Inr keys"
    and zs: "zs = map snd (sort_key fst (zip keys xs))"
    by (auto simp: sorted_by_topo_def split: sum.splits)
  from traverse_Inr[OF k] have a: "list_all2 (\<lambda>x y. topo_key ts x = Inr y) xs keys" .
  from assms(2) zs obtain kz where "(kz, z) \<in> set (zip keys xs)" by force
  then obtain i where "i < length xs" "keys ! i = kz" "xs ! i = z"
    by (auto simp: set_zip)
  with a show ?thesis by (auto simp: list_all2_conv_all_nth)
qed



lemma then_else_nonempty:
  "then_else_valued_outputs fgraph node n all_outputs = Inr (z # zs)
     \<Longrightarrow> related_valued_nodes fgraph node \<noteq> []"
  by (auto simp: then_else_valued_outputs_def sorted_by_topo_def Let_def split: sum.splits)

lemma then_else_owner:
  assumes "then_else_valued_outputs fgraph node n all_outputs = Inr zs" and "z \<in> set zs"
  shows "owner (fst z) \<noteq> None \<and> owner (fst (snd z)) \<noteq> None"
proof -
  from assms(1) obtain us where "sorted_by_topo (toposort fgraph) us = Inr zs"
    by (auto simp: then_else_valued_outputs_def Let_def split: sum.splits)
  from sorted_by_topo_keys[OF this assms(2)] topo_key_owner show ?thesis by blast
qed

lemma self_ancestor: "v \<in> set (ancestors v)"
  by (cases v) auto

lemma input_ancestor: "i \<in> set ins \<Longrightarrow> i \<in> set (ancestors (Out f ins ts k))"
  using self_ancestor by auto




lemma traverse_length: "traverse g xs = Inr ys \<Longrightarrow> length ys = length xs"
  by (induction xs arbitrary: ys) (auto split: sum.splits)


lemma sorted_by_topo_set: "sorted_by_topo ts xs = Inr zs \<Longrightarrow> set zs = set xs"
proof -
  assume a: "sorted_by_topo ts xs = Inr zs"
  then obtain keys where k: "traverse (topo_key ts) xs = Inr keys"
    and zs: "zs = map snd (sort_key fst (zip keys xs))"
    by (auto simp: sorted_by_topo_def split: sum.splits)
  have "length keys = length xs" using k by (rule traverse_length)
  then have "map snd (zip keys xs) = xs" by (rule map_snd_zip)
  moreover have "set zs = snd ` set (zip keys xs)" unfolding zs by simp
  ultimately show ?thesis by (metis set_map)
qed










text \<open>
  Claim C9.  When a then or else branch of a remaining valued output is among the
  ancestors of the first extracted branch pair, the splitter returns no rewrite.
\<close>
theorem split_abstains_on_ancestor_overlap:
  assumes "n_outs (op node) = Some n" and "n \<noteq> 1" and "inputs node = cond # all_outputs"
    and "then_else_valued_outputs fgraph node n all_outputs = Inr ((ft, fe, fv, fvo) # rem)"
    and "rem \<noteq> []"
    and "set (map fst rem @ map (\<lambda>x. fst (snd x)) rem)
           \<inter> (set (ancestors ft) \<union> set (ancestors fe)) \<noteq> {}"
  shows "split_valued_ifelse fgraph node = Inr None"
proof -
  from assms(6) obtain a where a: "a \<in> set (map fst rem @ map (\<lambda>x. fst (snd x)) rem)"
    "a \<in> set (ancestors ft) \<union> set (ancestors fe)" by blast
  from a(1) obtain x where x: "x \<in> set rem" "a = fst x \<or> a = fst (snd x)" by auto
  from then_else_owner[OF assms(4), of x] x have "owner a \<noteq> None" by auto
  with a have "set (map fst rem @ map (\<lambda>x. fst (snd x)) rem)
       \<inter> set (filter (\<lambda>a. owner a \<noteq> None) (ancestors ft @ ancestors fe)) \<noteq> {}"
    by auto
  then show ?thesis
    using assms(1-5) then_else_nonempty[OF assms(4)]
    by (simp add: split_valued_ifelse_def Let_def)
qed

theorem split_abstains_on_ancestor_overlap_witness:
  "n_outs (op ex_conflict_node) = Some 2
   \<and> ex_B2 \<in> set (ancestors ex_A1c)
   \<and> split_valued_ifelse ex_conflict_fgraph ex_conflict_node = Inr None"
proof -
  have a: "ex_B2 \<in> set (ancestors ex_A1c)" by (simp add: ex_split_defs)
  have i: "inputs ex_conflict_node = ex_c # [ex_A1c, ex_A2, ex_B1, ex_B2]"
    by (simp add: ex_conflict_node_def)
  have n: "n_outs (op ex_conflict_node) = Some 2" by (simp add: ex_conflict_node_def)
  have "split_valued_ifelse ex_conflict_fgraph ex_conflict_node = Inr None"
    by (rule split_abstains_on_ancestor_overlap[OF n _ i ex_conflict_candidates])
       (use a in auto)
  with a n show ?thesis by simp
qed




text \<open>
  Where the condition is computed from the first then branch, the slot of the comparison
  is given the first valued conditional, and the comparison is the condition of that
  conditional as well: the change is made in the one node that both conditionals use.
\<close>
lemma ex_shared_condition:
  "split_valued_ifelse ex_shared_fgraph ex_shared_node =
     Inr (Some
       ([(Out ValuedRV [outputs ex_shared_node ! 0, ex_v1] [TensorType ''float64'' []] 0,
          valued_rv (Out (IfElse 1) [ex_gt, ex_A1, ex_B1] [TensorType ''float64'' []] 0) ex_v1),
         (Out ValuedRV [outputs ex_shared_node ! 1, ex_v2] [TensorType ''float64'' []] 0,
          valued_rv (Out (IfElse 1) [ex_gt, ex_B2, ex_B2] [TensorType ''float64'' []] 0) ex_v2)],
        [(make_node (OtherOp ''gt'' False) [ex_A1] [TensorType ''bool'' []], 0)]))"
  by code_simp

section \<open>Properties of the indexing expander\<close>

lemma cb_0 [simp]: "cb F 0 = 0" by (simp add: cb_def)
lemma cb_Cons [simp]: "cb (h # t) (Suc j) = (if is_basic_idx h then Suc (cb t j) else cb t j)"
  by (simp add: cb_def)

lemma gslot_Suc:
  "gslot sv moved fa nb ns (Suc d0) (if is_basic_idx h then Suc p0 else p0) t j shp
     \<Longrightarrow> gslot sv moved fa nb ns d0 p0 (h # t) (Suc j) shp"
  by (auto simp: gslot_def)

lemma as_tensor_InrD: "as_tensor idx = Inr t \<Longrightarrow> \<exists>v. idx = Ix v \<and> t = V v"
  by (auto simp: as_tensor_def split: index.splits vtype.splits)

lemma slice_arange_InrD: "slice_arange idx s = Inr t \<Longrightarrow> \<exists>a b c. t = ArangeSlice a b c s"
  by (auto simp: slice_arange_def split: index.splits var.splits vtype.splits cdata.splits)

lemma newaxis_basic: "is_newaxis i \<Longrightarrow> is_basic_idx i"
  by (cases i) auto

lemma gslot_shift:
  assumes "list_all2 (\<lambda>j e. gslot sv moved fa nb ns (Suc d0) (if is_basic_idx h then Suc p0 else p0) t j
                          (rshape sv dv e)) js out"
  shows "list_all2 (\<lambda>j e. gslot sv moved fa nb ns d0 p0 (h # t) j (rshape sv dv e)) (map Suc js) out"
  using assms gslot_Suc[of sv moved fa nb ns d0 h p0 t]
  by (auto simp: list_all2_conv_all_nth)

lemma loop_closed:
  assumes "expand_loop moved fa nb ns d npb sh rest = Inr out"
  shows "\<exists>js. distinct js
            \<and> list_all2 (\<lambda>j e. gslot sv moved fa nb ns d npb rest j (rshape sv dv e)) js out"
  using assms
proof (induction rest arbitrary: d npb sh out)
  case Nil
  then show ?case by simp
next
  case (Cons h t)
  show ?case
  proof (cases "is_basic_idx h")
    case adv: False
    from Cons.prems adv obtain s sh' tn out' where
      sh: "sh = s # sh'" and tn: "as_tensor h = Inr tn"
      and rec: "expand_loop moved fa nb ns (Suc d) npb sh' t = Inr out'"
      and out: "out = (if moved then NewAxesRight tn nb
                       else NewAxesRight (NewAxesLeft npb tn) (nb - npb)) # out'"
      by (auto simp: Let_def split: list.splits sum.splits if_splits)
    from as_tensor_InrD[OF tn] obtain v where v: "h = Ix v" "tn = V v" by blast
    have hd: "gslot sv moved fa nb ns d npb (h # t) 0
               (rshape sv dv (if moved then NewAxesRight tn nb
                       else NewAxesRight (NewAxesLeft npb tn) (nb - npb)))"
      using adv v newaxis_basic[of h] by (auto simp: gslot_def)
    from Cons.IH[OF rec] obtain js where js: "distinct js"
      "list_all2 (\<lambda>j e. gslot sv moved fa nb ns (Suc d) npb t j (rshape sv dv e)) js out'"
      by blast
    from js(2) adv have
      "list_all2 (\<lambda>j e. gslot sv moved fa nb ns d npb (h # t) j (rshape sv dv e)) (map Suc js) out'"
      using gslot_shift[of sv moved fa nb ns d h npb t dv js out'] by simp
    with hd out have
      "list_all2 (\<lambda>j e. gslot sv moved fa nb ns d npb (h # t) j (rshape sv dv e))
         (0 # map Suc js) out" by simp
    moreover have "distinct (0 # map Suc js)" using js(1) by (simp add: distinct_map)
    ultimately show ?thesis by blast
  next
    case bas: True
    show ?thesis
    proof (cases "is_newaxis h")
      case True
      with Cons.prems bas have rec: "expand_loop moved fa nb ns (Suc d) (Suc npb) sh t = Inr out"
        by (simp add: Let_def)
      from Cons.IH[OF rec] obtain js where js: "distinct js"
        "list_all2 (\<lambda>j e. gslot sv moved fa nb ns (Suc d) (Suc npb) t j (rshape sv dv e)) js out"
        by blast
      from js(2) bas have
        "list_all2 (\<lambda>j e. gslot sv moved fa nb ns d npb (h # t) j (rshape sv dv e)) (map Suc js) out"
        using gslot_shift[of sv moved fa nb ns d h npb t dv js out] by simp
      moreover have "distinct (map Suc js)" using js(1) by (simp add: distinct_map)
      ultimately show ?thesis by blast
    next
      case False
      from Cons.prems bas False obtain s sh' tn out' where
        sh: "sh = s # sh'" and tn: "slice_arange h s = Inr tn"
        and rec: "expand_loop moved fa nb ns (Suc d) (Suc npb) sh' t = Inr out'"
        and out: "out = (if moved then NewAxesRight (NewAxesLeft (ns + npb) tn) (nb - npb - 1)
                         else NewAxesRight (NewAxesLeft ((if d > fa then ns else 0) + npb) tn)
                                (ns + nb - ((if d > fa then ns else 0) + npb) - 1)) # out'"
        by (auto simp: Let_def split: list.splits sum.splits if_splits)
      from slice_arange_InrD[OF tn] obtain a b c where t: "tn = ArangeSlice a b c s" by blast
      have hd: "gslot sv moved fa nb ns d npb (h # t) 0
               (rshape sv dv (if moved then NewAxesRight (NewAxesLeft (ns + npb) tn) (nb - npb - 1)
                         else NewAxesRight (NewAxesLeft ((if d > fa then ns else 0) + npb) tn)
                                (ns + nb - ((if d > fa then ns else 0) + npb) - 1)))"
        using bas False t by (auto simp: gslot_def)
      from Cons.IH[OF rec] obtain js where js: "distinct js"
        "list_all2 (\<lambda>j e. gslot sv moved fa nb ns (Suc d) (Suc npb) t j (rshape sv dv e)) js out'"
        by blast
      from js(2) bas have
        "list_all2 (\<lambda>j e. gslot sv moved fa nb ns d npb (h # t) j (rshape sv dv e)) (map Suc js) out'"
        using gslot_shift[of sv moved fa nb ns d h npb t dv js out'] by simp
      with hd out have
        "list_all2 (\<lambda>j e. gslot sv moved fa nb ns d npb (h # t) j (rshape sv dv e))
           (0 # map Suc js) out" by simp
      moreover have "distinct (0 # map Suc js)" using js(1) by (simp add: distinct_map)
      ultimately show ?thesis by blast
    qed
  qed
qed

lemma loop_succeeds:
  assumes "length (filter (\<lambda>i. \<not> is_newaxis i) rest) \<le> length sh"
    and "\<forall>i\<in>set rest. well_typed_idx ns i"
    and "npb + length (filter is_basic_idx rest) \<le> nb"
  shows "\<exists>out. expand_loop moved fa nb ns d npb sh rest = Inr out
             \<and> length out = length (filter (\<lambda>i. \<not> is_newaxis i) rest)"
  using assms
proof (induction rest arbitrary: d npb sh)
  case Nil
  then show ?case by simp
next
  case (Cons h t)
  show ?case
  proof (cases "is_basic_idx h")
    case adv: False
    then have nn: "\<not> is_newaxis h" using newaxis_basic by blast
    from Cons.prems(2) adv obtain v dt b where
      v: "h = Ix v" "type_of v = TensorType dt b" "length b \<le> ns"
      by (auto simp: well_typed_idx_def)
    from Cons.prems(1) nn obtain s sh' where sh: "sh = s # sh'"
      and l: "length (filter (\<lambda>i. \<not> is_newaxis i) t) \<le> length sh'"
      by (cases sh) auto
    from Cons.prems(3) adv have c: "npb + length (filter is_basic_idx t) \<le> nb" by simp
    from Cons.IH[OF l _ c, of "Suc d"] Cons.prems(2) obtain out' where
      o: "expand_loop moved fa nb ns (Suc d) npb sh' t = Inr out'"
         "length out' = length (filter (\<lambda>i. \<not> is_newaxis i) t)"
      by auto
    have le: "npb \<le> nb" using c by simp
    show ?thesis
      using adv nn v sh o le by (auto simp: Let_def as_tensor_def)
  next
    case bas: True
    show ?thesis
    proof (cases "is_newaxis h")
      case True
      from Cons.prems(1) True have l: "length (filter (\<lambda>i. \<not> is_newaxis i) t) \<le> length sh"
        by simp
      from Cons.prems(3) bas have c: "Suc npb + length (filter is_basic_idx t) \<le> nb" by simp
      from Cons.IH[OF l _ c, of "Suc d"] Cons.prems(2) bas True show ?thesis
        by (auto simp: Let_def)
    next
      case False
      from Cons.prems(1) False obtain s sh' where sh: "sh = s # sh'"
        and l: "length (filter (\<lambda>i. \<not> is_newaxis i) t) \<le> length sh'"
        by (cases sh) auto
      from Cons.prems(3) bas have c: "Suc npb + length (filter is_basic_idx t) \<le> nb" by simp
      from Cons.IH[OF l _ c, of "Suc d"] Cons.prems(2) obtain out' where
        o: "expand_loop moved fa nb ns (Suc d) (Suc npb) sh' t = Inr out'"
           "length out' = length (filter (\<lambda>i. \<not> is_newaxis i) t)"
        by auto
      from Cons.prems(2) bas False obtain a b c where
        "h = PySlice a b c \<or> h = Ix (Constant SliceType (SliceData a b c))"
        by (auto simp: well_typed_idx_def)
      then have sl: "slice_arange h s = Inr (ArangeSlice a b c s)"
        by (auto simp: slice_arange_def)
      have lt: "npb < nb" using c by simp
      show ?thesis
        using bas False sh o sl lt by (auto simp: Let_def)
    qed
  qed
qed

lemma foldr_max_ge: "x \<in> set xs \<Longrightarrow> x \<le> foldr max xs (0::nat)"
  by (induction xs) (auto simp: max_def)

lemma foldr_max_attained: "xs \<noteq> [] \<Longrightarrow> foldr max xs (0::nat) \<in> set xs"
proof (induction xs)
  case Nil
  then show ?case by simp
next
  case (Cons a xs)
  show ?case
  proof (cases "xs = []")
    case True
    then show ?thesis by simp
  next
    case False
    with Cons.IH show ?thesis by (auto simp: max_def)
  qed
qed

lemma foldr_max_le: "(\<And>x. x \<in> set xs \<Longrightarrow> x \<le> n) \<Longrightarrow> foldr max xs (0::nat) \<le> n"
  by (induction xs) auto

lemma full_non_newaxis:
  assumes "length indices \<le> length shape"
  shows "length (filter (\<lambda>i. \<not> is_newaxis i) (full_indices_of indices shape)) = length shape"
proof -
  have "length (filter (\<lambda>i. \<not> is_newaxis i) indices) \<le> length shape"
    by (rule order_trans[OF length_filter_le assms])
  then show ?thesis by (simp add: full_indices_of_def Let_def)
qed

lemma those_Some:
  "(\<forall>x\<in>set xs. x \<noteq> None) \<Longrightarrow> \<exists>ys. those xs = Some ys \<and> length ys = length xs"
  by (induction xs) (auto split: option.splits)

lemma those_SomeD: "those xs = Some ys \<Longrightarrow> \<forall>x\<in>set xs. x \<noteq> None"
  by (induction xs arbitrary: ys) (auto split: option.splits)

lemma broadcast_dim_Some:
  assumes "\<forall>x\<in>set ds. \<forall>y\<in>set ds. x = 1 \<or> y = 1 \<or> x = y"
  shows "broadcast_dim ds \<noteq> None"
proof (cases "filter (\<lambda>d. d \<noteq> 1) ds")
  case Nil
  then show ?thesis by (simp add: broadcast_dim_def)
next
  case (Cons d rest)
  have "d \<in> set (filter (\<lambda>d. d \<noteq> 1) ds)" using Cons by simp
  then have d: "d \<in> set ds" "d \<noteq> 1" by auto
  have "x = d" if "x \<in> set rest" for x
  proof -
    from that Cons have "x \<in> set (filter (\<lambda>d. d \<noteq> 1) ds)" by simp
    then have "x \<in> set ds" "x \<noteq> 1" by auto
    with d assms show ?thesis by blast
  qed
  then have "list_all (\<lambda>x. x = d) rest" by (simp add: list_all_iff)
  with Cons show ?thesis by (simp add: broadcast_dim_def)
qed

lemma broadcast_dim_SomeD:
  assumes "broadcast_dim ds \<noteq> None" and "x \<in> set ds" and "y \<in> set ds"
  shows "x = 1 \<or> y = 1 \<or> x = y"
proof (cases "filter (\<lambda>d. d \<noteq> 1) ds")
  case Nil
  then have "\<forall>z\<in>set ds. z = 1" by (auto simp: filter_empty_conv)
  with assms(2) show ?thesis by simp
next
  case (Cons d rest)
  with assms(1) have all: "list_all (\<lambda>x. x = d) rest"
    by (auto simp: broadcast_dim_def split: if_splits)
  have "z = d" if "z \<in> set ds" "z \<noteq> 1" for z
  proof -
    from that have "z \<in> set (filter (\<lambda>d. d \<noteq> 1) ds)" by simp
    with Cons have "z = d \<or> z \<in> set rest" by simp
    with all show ?thesis by (auto simp: list_all_iff)
  qed
  with assms(2,3) show ?thesis by metis
qed

lemma broadcast_shapes_Some:
  assumes "\<forall>s\<in>set ss. \<forall>t\<in>set ss. compat (foldr max (map length ss) 0) s t"
  shows "\<exists>c. broadcast_shapes ss = Some c \<and> length c = foldr max (map length ss) 0"
proof -
  let ?n = "foldr max (map length ss) 0"
  let ?cols = "map (\<lambda>k. broadcast_dim (map (\<lambda>s. pad_shape ?n s ! k) ss)) [0..<?n]"
  have "\<forall>x\<in>set ?cols. x \<noteq> None"
  proof
    fix x assume "x \<in> set ?cols"
    then obtain k where k: "k < ?n" "x = broadcast_dim (map (\<lambda>s. pad_shape ?n s ! k) ss)"
      by auto
    have "broadcast_dim (map (\<lambda>s. pad_shape ?n s ! k) ss) \<noteq> None"
      by (rule broadcast_dim_Some) (use assms k(1) in \<open>auto simp: compat_def\<close>)
    with k show "x \<noteq> None" by simp
  qed
  from those_Some[OF this] show ?thesis by (simp add: broadcast_shapes_def Let_def)
qed

lemma broadcast_shapes_SomeD:
  assumes "broadcast_shapes ss \<noteq> None" and "s \<in> set ss" and "t \<in> set ss"
  shows "compat (foldr max (map length ss) 0) s t"
proof -
  let ?n = "foldr max (map length ss) 0"
  let ?cols = "map (\<lambda>k. broadcast_dim (map (\<lambda>s. pad_shape ?n s ! k) ss)) [0..<?n]"
  from assms(1) obtain c where "those ?cols = Some c"
    by (auto simp: broadcast_shapes_def Let_def)
  from those_SomeD[OF this] have n: "\<forall>x\<in>set ?cols. x \<noteq> None" .
  show ?thesis
    unfolding compat_def
  proof (intro allI impI)
    fix k assume k: "k < ?n"
    with n have "broadcast_dim (map (\<lambda>s. pad_shape ?n s ! k) ss) \<noteq> None" by simp
    from broadcast_dim_SomeD[OF this, of "pad_shape ?n s ! k" "pad_shape ?n t ! k"] assms(2,3)
    show "pad_shape ?n s ! k = 1 \<or> pad_shape ?n t ! k = 1 \<or> pad_shape ?n s ! k = pad_shape ?n t ! k"
      by auto
  qed
qed

lemma index_of_Some:
  "index_of x ys k = Some i \<Longrightarrow>
     k \<le> i \<and> i < k + length ys \<and> ys ! (i - k) = x \<and> (\<forall>j. j < i - k \<longrightarrow> ys ! j \<noteq> x)"
proof (induction ys arbitrary: k)
  case Nil
  then show ?case by simp
next
  case (Cons y ys)
  show ?case
  proof (cases "x = y")
    case True
    with Cons.prems show ?thesis by simp
  next
    case False
    with Cons.prems have r: "index_of x ys (Suc k) = Some i" by simp
    from Cons.IH[OF r] have h: "Suc k \<le> i" "i < Suc k + length ys" "ys ! (i - Suc k) = x"
      "\<forall>j. j < i - Suc k \<longrightarrow> ys ! j \<noteq> x" by auto
    have e: "i - k = Suc (i - Suc k)" using h(1) by simp
    have "\<forall>j. j < i - k \<longrightarrow> (y # ys) ! j \<noteq> x"
    proof (intro allI impI)
      fix j assume "j < i - k"
      then show "(y # ys) ! j \<noteq> x"
        using h(4) False e by (cases j) auto
    qed
    with h e show ?thesis by auto
  qed
qed

lemma index_of_None: "index_of x ys k = None \<Longrightarrow> x \<notin> set ys"
  by (induction ys arbitrary: k) (auto split: if_splits)

lemma list_index_Some:
  assumes "list_index xs x start = Some i"
  shows "start \<le> i \<and> i < length xs \<and> xs ! i = x \<and> (\<forall>j. start \<le> j \<and> j < i \<longrightarrow> xs ! j \<noteq> x)"
proof -
  from index_of_Some[OF assms[unfolded list_index_def]]
  have h: "start \<le> i" "i < start + length (drop start xs)" "drop start xs ! (i - start) = x"
    "\<forall>j. j < i - start \<longrightarrow> drop start xs ! j \<noteq> x" by auto
  from h(1,2) have l: "i < length xs" by simp
  from h(3) h(1) l have x: "xs ! i = x" by simp
  have "\<forall>j. start \<le> j \<and> j < i \<longrightarrow> xs ! j \<noteq> x"
  proof (intro allI impI)
    fix j assume j: "start \<le> j \<and> j < i"
    then have "j - start < i - start" by arith
    with h(4) have "drop start xs ! (j - start) \<noteq> x" by blast
    with j l show "xs ! j \<noteq> x" by simp
  qed
  with h(1) l x show ?thesis by simp
qed

lemma list_index_None:
  assumes "list_index xs x start = None" and "start \<le> j" and "j < length xs"
  shows "xs ! j \<noteq> x"
proof -
  from index_of_None[OF assms(1)[unfolded list_index_def]] have "x \<notin> set (drop start xs)" .
  moreover have "xs ! j \<in> set (drop start xs)"
  proof -
    have l: "j - start < length (drop start xs)" using assms(2,3) by simp
    have "drop start xs ! (j - start) = xs ! j" using assms(2,3) by simp
    with nth_mem[OF l] show ?thesis by simp
  qed
  ultimately show ?thesis by metis
qed

lemma cb_Suc:
  "i < length F \<Longrightarrow> cb F (Suc i) = (if is_basic_idx (F ! i) then Suc (cb F i) else cb F i)"
  by (simp add: cb_def take_Suc_conv_app_nth)

lemma cb_mono: "i \<le> j \<Longrightarrow> cb F i \<le> cb F j"
proof -
  assume "i \<le> j"
  then obtain k where k: "j = i + k" using le_Suc_ex by blast
  show ?thesis unfolding k cb_def by (simp add: take_add)
qed

lemma cb_strict:
  assumes "i < j" and "j \<le> length F" and "is_basic_idx (F ! i)"
  shows "cb F i < cb F j"
proof -
  have "cb F (Suc i) = Suc (cb F i)" using assms by (simp add: cb_Suc)
  moreover have "cb F (Suc i) \<le> cb F j" using assms(1) by (intro cb_mono) simp
  ultimately show ?thesis by simp
qed

lemma cb_const:
  assumes "i \<le> j" and "j \<le> length F" and "\<forall>k. i \<le> k \<and> k < j \<longrightarrow> \<not> is_basic_idx (F ! k)"
  shows "cb F j = cb F i"
  using assms
proof (induction j)
  case 0
  then show ?case by simp
next
  case (Suc j)
  show ?case
  proof (cases "i = Suc j")
    case True
    then show ?thesis by simp
  next
    case False
    with Suc.prems have le: "i \<le> j" "j < length F" by auto
    from Suc.prems(3) le have nb: "\<not> is_basic_idx (F ! j)" by simp
    from Suc.IH le Suc.prems(3) have "cb F j = cb F i" by simp
    with nb le show ?thesis by (simp add: cb_Suc)
  qed
qed

lemma cb_total: "cb F (length F) = length (filter is_basic_idx F)"
  by (simp add: cb_def)

lemma cb_basic_lt:
  assumes "j < length F" and "is_basic_idx (F ! j)"
  shows "cb F j < length (filter is_basic_idx F)"
  using cb_strict[of j "length F" F] assms by (simp add: cb_total)

lemma cb_le: "cb F j \<le> length (filter is_basic_idx F)"
proof (cases "j \<le> length F")
  case True
  from cb_mono[OF this, of F] show ?thesis by (simp add: cb_total)
next
  case False
  then show ?thesis by (simp add: cb_def)
qed

lemma info_first_adv:
  assumes "subspace_info (map is_basic_idx F) L = (fa, moved)"
    and "j < length F" and "\<not> is_basic_idx (F ! j)"
  shows "fa \<le> j \<and> fa < length F \<and> \<not> is_basic_idx (F ! fa) \<and> (\<forall>i<fa. is_basic_idx (F ! i))"
proof (cases "list_index (map is_basic_idx F) False 0")
  case None
  from list_index_None[OF None, of j] assms(2,3) show ?thesis by simp
next
  case (Some fa')
  with assms(1) have e: "fa = fa'" by (auto simp: subspace_info_def split: option.splits)
  from list_index_Some[OF Some] e
  have h: "fa < length F" "\<not> is_basic_idx (F ! fa)"
    "\<forall>i. i < fa \<longrightarrow> map is_basic_idx F ! i \<noteq> False" by auto
  have a: "\<forall>i<fa. is_basic_idx (F ! i)"
  proof (intro allI impI)
    fix i assume i: "i < fa"
    with h(3) have "map is_basic_idx F ! i \<noteq> False" by blast
    with i h(1) show "is_basic_idx (F ! i)" by simp
  qed
  have "fa \<le> j"
  proof (rule ccontr)
    assume "\<not> fa \<le> j"
    with a have "is_basic_idx (F ! j)" by simp
    with assms(3) show False by simp
  qed
  with h a show ?thesis by simp
qed

lemma info_not_moved:
  assumes "subspace_info (map is_basic_idx F) L = (fa, False)"
    and "fa \<le> i" and "i \<le> j" and "j < length F" and "is_basic_idx (F ! i)"
  shows "is_basic_idx (F ! j)"
proof (cases "list_index (map is_basic_idx F) False 0")
  case None
  from list_index_None[OF None, of j] assms(4) show ?thesis by simp
next
  case (Some fa')
  with assms(1) have e: "fa = fa'" by (auto simp: subspace_info_def split: option.splits)
  show ?thesis
  proof (cases "list_index (map is_basic_idx F) True fa")
    case None
    from list_index_None[OF None, of i] assms(2,3,4,5) show ?thesis by simp
  next
    case fb: (Some fb)
    from list_index_Some[OF fb]
    have h: "\<forall>k. fa \<le> k \<and> k < fb \<longrightarrow> map is_basic_idx F ! k \<noteq> True" "fb < length F" by auto
    have "fb \<le> i"
    proof (rule ccontr)
      assume "\<not> fb \<le> i"
      with h assms(2) have "map is_basic_idx F ! i \<noteq> True" by simp
      with assms(3,4,5) show False by simp
    qed
    from assms(1) Some fb e have n: "list_index (map is_basic_idx F) False fb = None"
      by (auto simp: subspace_info_def split: option.splits)
    from list_index_None[OF n, of j] \<open>fb \<le> i\<close> assms(3,4) show ?thesis by simp
  qed
qed

lemma nth_window:
  assumes "length X = m" and "k < p + m + q"
  shows "(replicate p (1::nat) @ X @ replicate q 1) ! k
           = (if p \<le> k \<and> k < p + m then X ! (k - p) else 1)"
  using assms by (auto simp: nth_append)

lemma pad_window:
  assumes "length s \<le> ns" and "p \<le> nb"
  shows "pad_shape (ns + nb) (replicate p 1 @ s @ replicate (nb - p) 1)
           = replicate p 1 @ pad_shape ns s @ replicate (nb - p) 1"
proof -
  have "ns + nb - (p + (length s + (nb - p))) = ns - length s" using assms by simp
  moreover have "replicate (ns - length s) (1::nat) @ replicate p 1
        = replicate p 1 @ replicate (ns - length s) 1"
    by (simp add: replicate_add[symmetric] add.commute)
  ultimately show ?thesis by (simp add: pad_shape_def)
qed

lemma length_pad: "length s \<le> n \<Longrightarrow> length (pad_shape n s) = n"
  by (simp add: pad_shape_def)

lemma slot_basic_col:
  assumes s: "gslot sv moved fa nb ns 0 0 F j sh" and b: "is_basic_idx (F ! j)"
    and nb: "nb = length (filter is_basic_idx F)"
  shows "basic_col moved fa ns F j < ns + nb \<and> length sh = ns + nb
       \<and> (\<exists>L. \<forall>k<ns + nb. pad_shape (ns + nb) sh ! k
                   = (if k = basic_col moved fa ns F j then L else 1))"
proof -
  let ?c = "basic_col moved fa ns F j"
  from s have j: "j < length F" by (simp add: gslot_def)
  from cb_basic_lt[OF j b] nb have lt: "cb F j < nb" by simp
  then have c: "?c < ns + nb" by (auto simp: basic_col_def)
  have "\<exists>L. sh = replicate ?c 1 @ [L] @ replicate (ns + nb - ?c - 1) 1"
  proof (cases moved)
    case True
    with s b obtain L where
      "sh = replicate (ns + cb F j) 1 @ [L] @ replicate (nb - cb F j - 1) 1"
      by (auto simp: gslot_def)
    moreover have "ns + nb - (ns + cb F j) - 1 = nb - cb F j - 1" by simp
    ultimately show ?thesis using True by (simp add: basic_col_def)
  next
    case False
    with s b obtain L where
      "sh = replicate ((if j > fa then ns else 0) + cb F j) 1 @ [L]
              @ replicate (ns + nb - ((if j > fa then ns else 0) + cb F j) - 1) 1"
      by (auto simp: gslot_def)
    then show ?thesis using False by (simp add: basic_col_def)
  qed
  then obtain L where sh: "sh = replicate ?c 1 @ [L] @ replicate (ns + nb - ?c - 1) 1"
    by blast
  have len: "length sh = ns + nb" using c by (simp add: sh)
  have "\<forall>k<ns + nb. pad_shape (ns + nb) sh ! k = (if k = ?c then L else 1)"
  proof (intro allI impI)
    fix k assume k: "k < ns + nb"
    have p: "pad_shape (ns + nb) sh = sh" using len by (simp add: pad_shape_def)
    have "k < ?c + 1 + (ns + nb - ?c - 1)" using k c by simp
    from nth_window[of "[L]" 1 k ?c "ns + nb - ?c - 1", OF _ this]
    have "sh ! k = (if k = ?c then L else 1)"
      unfolding sh by (auto split: if_splits)
    then show "pad_shape (ns + nb) sh ! k = (if k = ?c then L else 1)"
      by (simp only: p)
  qed
  with c len show ?thesis by blast
qed

lemma slot_adv_col:
  assumes s: "gslot sv moved fa nb ns 0 0 F j sh" and a: "\<not> is_basic_idx (F ! j)"
    and info: "subspace_info (map is_basic_idx F) L = (fa, moved)"
    and nb: "nb = length (filter is_basic_idx F)"
    and advlen: "\<forall>v. Ix v \<in> set F \<and> \<not> is_basic_idx (Ix v) \<longrightarrow> length (sv v) \<le> ns"
  shows "\<exists>v. F ! j = Ix v
       \<and> length sh = length (sv v) + nb
       \<and> (\<forall>k<ns + nb. pad_shape (ns + nb) sh ! k
              = (if win_start moved fa F \<le> k \<and> k < win_start moved fa F + ns
                 then pad_shape ns (sv v) ! (k - win_start moved fa F) else 1))"
proof -
  let ?w = "win_start moved fa F"
  from s have j: "j < length F" by (simp add: gslot_def)
  from info_first_adv[OF info j a] have fa: "fa \<le> j" "fa < length F" by auto
  have w: "\<not> moved \<Longrightarrow> cb F j = ?w"
  proof -
    assume nm: "\<not> moved"
    have "\<forall>k. fa \<le> k \<and> k < j \<longrightarrow> \<not> is_basic_idx (F ! k)"
    proof (intro allI impI notI)
      fix k assume k: "fa \<le> k \<and> k < j" and bk: "is_basic_idx (F ! k)"
      from info nm have "subspace_info (map is_basic_idx F) L = (fa, False)" by simp
      from info_not_moved[OF this, of k j] k j bk have "is_basic_idx (F ! j)" by simp
      with a show False by simp
    qed
    from cb_const[OF fa(1) _ this] j nm show ?thesis by (simp add: win_start_def)
  qed
  from s a obtain v where v: "F ! j = Ix v"
    and sh0: "sh = (if moved then sv v @ replicate nb 1
                   else replicate (cb F j) 1 @ sv v @ replicate (nb - cb F j) 1)"
    by (auto simp: gslot_def)
  have wle: "?w \<le> nb" using cb_le[of F fa] nb by (simp add: win_start_def)
  have sh: "sh = replicate ?w 1 @ sv v @ replicate (nb - ?w) 1"
    using sh0 w by (cases moved) (auto simp: win_start_def)
  from v j a have "Ix v \<in> set F" "\<not> is_basic_idx (Ix v)" by (metis nth_mem, metis)
  with advlen have l: "length (sv v) \<le> ns" by blast
  have len: "length sh = length (sv v) + nb" using wle by (simp add: sh)
  have p: "pad_shape (ns + nb) sh = replicate ?w 1 @ pad_shape ns (sv v) @ replicate (nb - ?w) 1"
    unfolding sh by (rule pad_window[OF l wle])
  have "\<forall>k<ns + nb. pad_shape (ns + nb) sh ! k
              = (if ?w \<le> k \<and> k < ?w + ns then pad_shape ns (sv v) ! (k - ?w) else 1)"
  proof (intro allI impI)
    fix k assume k: "k < ns + nb"
    then have "k < ?w + ns + (nb - ?w)" using wle by simp
    from nth_window[OF length_pad[OF l] this]
    show "pad_shape (ns + nb) sh ! k
              = (if ?w \<le> k \<and> k < ?w + ns then pad_shape ns (sv v) ! (k - ?w) else 1)"
      unfolding p .
  qed
  with v len show ?thesis by blast
qed

lemma basic_col_outside:
  assumes info: "subspace_info (map is_basic_idx F) L = (fa, moved)"
    and j: "j < length F" and b: "is_basic_idx (F ! j)"
    and j': "j' < length F" and a: "\<not> is_basic_idx (F ! j')"
  shows "basic_col moved fa ns F j < win_start moved fa F
       \<or> win_start moved fa F + ns \<le> basic_col moved fa ns F j"
proof (cases moved)
  case True
  then show ?thesis by (simp add: basic_col_def win_start_def)
next
  case False
  from info_first_adv[OF info j' a] have fa: "fa < length F" "\<not> is_basic_idx (F ! fa)" by auto
  with b have ne: "j \<noteq> fa" by metis
  show ?thesis
  proof (cases "j < fa")
    case True
    from cb_strict[OF True _ b] fa(1) have "cb F j < cb F fa" by simp
    with True False show ?thesis by (simp add: basic_col_def win_start_def)
  next
    case f: False
    with ne have gt: "fa < j" by simp
    from cb_mono[of fa j F] gt have "cb F fa \<le> cb F j" by simp
    with gt False show ?thesis by (simp add: basic_col_def win_start_def)
  qed
qed

lemma basic_col_strict:
  assumes "j1 < j2" and "j2 < length F" and "is_basic_idx (F ! j1)"
  shows "basic_col moved fa ns F j1 < basic_col moved fa ns F j2"
proof -
  from cb_strict[OF assms(1) _ assms(3)] assms(2) have "cb F j1 < cb F j2" by simp
  with assms(1) show ?thesis by (auto simp: basic_col_def)
qed

lemma compat_sym: "compat n s t \<Longrightarrow> compat n t s"
  by (auto simp: compat_def)

lemma compat_refl: "compat n s s"
  by (simp add: compat_def)

lemma slots_compat_lt:
  assumes info: "subspace_info (map is_basic_idx F) L = (fa, moved)"
    and nb: "nb = length (filter is_basic_idx F)"
    and advlen: "\<forall>v. Ix v \<in> set F \<and> \<not> is_basic_idx (Ix v) \<longrightarrow> length (sv v) \<le> ns"
    and advc: "\<forall>v w. Ix v \<in> set F \<and> \<not> is_basic_idx (Ix v) \<and> Ix w \<in> set F \<and> \<not> is_basic_idx (Ix w)
                 \<longrightarrow> compat ns (sv v) (sv w)"
    and s1: "gslot sv moved fa nb ns 0 0 F j1 sh1"
    and s2: "gslot sv moved fa nb ns 0 0 F j2 sh2"
    and lt: "j1 < j2"
  shows "compat (ns + nb) sh1 sh2"
proof -
  let ?w = "win_start moved fa F"
  from s1 s2 have j: "j1 < length F" "j2 < length F" by (auto simp: gslot_def)
  show ?thesis
  proof (cases "is_basic_idx (F ! j1)")
    case b1: True
    from slot_basic_col[OF s1 b1 nb] obtain L1 where
      c1: "\<forall>k<ns + nb. pad_shape (ns + nb) sh1 ! k
              = (if k = basic_col moved fa ns F j1 then L1 else 1)" by blast
    show ?thesis
    proof (cases "is_basic_idx (F ! j2)")
      case b2: True
      from slot_basic_col[OF s2 b2 nb] obtain L2 where
        c2: "\<forall>k<ns + nb. pad_shape (ns + nb) sh2 ! k
                = (if k = basic_col moved fa ns F j2 then L2 else 1)" by blast
      from basic_col_strict[OF lt j(2) b1, of moved fa ns]
      have "basic_col moved fa ns F j1 \<noteq> basic_col moved fa ns F j2" by simp
      with c1 c2 show ?thesis by (auto simp: compat_def)
    next
      case a2: False
      from slot_adv_col[OF s2 a2 info nb advlen] obtain v where
        c2: "\<forall>k<ns + nb. pad_shape (ns + nb) sh2 ! k
              = (if ?w \<le> k \<and> k < ?w + ns then pad_shape ns (sv v) ! (k - ?w) else 1)" by blast
      from basic_col_outside[OF info j(1) b1 j(2) a2, of ns]
      have "basic_col moved fa ns F j1 < ?w \<or> ?w + ns \<le> basic_col moved fa ns F j1" .
      with c1 c2 show ?thesis by (auto simp: compat_def)
    qed
  next
    case a1: False
    from slot_adv_col[OF s1 a1 info nb advlen] obtain v where v: "F ! j1 = Ix v" and
      c1: "\<forall>k<ns + nb. pad_shape (ns + nb) sh1 ! k
            = (if ?w \<le> k \<and> k < ?w + ns then pad_shape ns (sv v) ! (k - ?w) else 1)" by blast
    show ?thesis
    proof (cases "is_basic_idx (F ! j2)")
      case b2: True
      from slot_basic_col[OF s2 b2 nb] obtain L2 where
        c2: "\<forall>k<ns + nb. pad_shape (ns + nb) sh2 ! k
                = (if k = basic_col moved fa ns F j2 then L2 else 1)" by blast
      from basic_col_outside[OF info j(2) b2 j(1) a1, of ns]
      have "basic_col moved fa ns F j2 < ?w \<or> ?w + ns \<le> basic_col moved fa ns F j2" .
      with c1 c2 show ?thesis by (auto simp: compat_def)
    next
      case a2: False
      from slot_adv_col[OF s2 a2 info nb advlen] obtain w where w: "F ! j2 = Ix w" and
        c2: "\<forall>k<ns + nb. pad_shape (ns + nb) sh2 ! k
              = (if ?w \<le> k \<and> k < ?w + ns then pad_shape ns (sv w) ! (k - ?w) else 1)" by blast
      from v w j a1 a2 have "Ix v \<in> set F" "\<not> is_basic_idx (Ix v)" "Ix w \<in> set F"
        "\<not> is_basic_idx (Ix w)" by (metis nth_mem, metis, metis nth_mem, metis)
      with advc have cc: "compat ns (sv v) (sv w)" by blast
      show ?thesis
        unfolding compat_def
      proof (intro allI impI)
        fix k assume k: "k < ns + nb"
        show "pad_shape (ns + nb) sh1 ! k = 1 \<or> pad_shape (ns + nb) sh2 ! k = 1
               \<or> pad_shape (ns + nb) sh1 ! k = pad_shape (ns + nb) sh2 ! k"
        proof (cases "?w \<le> k \<and> k < ?w + ns")
          case True
          then have "k - ?w < ns" by arith
          with cc have "pad_shape ns (sv v) ! (k - ?w) = 1 \<or> pad_shape ns (sv w) ! (k - ?w) = 1
               \<or> pad_shape ns (sv v) ! (k - ?w) = pad_shape ns (sv w) ! (k - ?w)"
            by (simp add: compat_def)
          with c1 c2 k True show ?thesis by simp
        next
          case False
          from c1 k have "pad_shape (ns + nb) sh1 ! k
            = (if ?w \<le> k \<and> k < ?w + ns then pad_shape ns (sv v) ! (k - ?w) else 1)" by blast
          with False have "pad_shape (ns + nb) sh1 ! k = 1" by metis
          then show ?thesis by blast
        qed
      qed
    qed
  qed
qed

lemma slots_compat:
  assumes info: "subspace_info (map is_basic_idx F) L = (fa, moved)"
    and nb: "nb = length (filter is_basic_idx F)"
    and advlen: "\<forall>v. Ix v \<in> set F \<and> \<not> is_basic_idx (Ix v) \<longrightarrow> length (sv v) \<le> ns"
    and advc: "\<forall>v w. Ix v \<in> set F \<and> \<not> is_basic_idx (Ix v) \<and> Ix w \<in> set F \<and> \<not> is_basic_idx (Ix w)
                 \<longrightarrow> compat ns (sv v) (sv w)"
    and s1: "gslot sv moved fa nb ns 0 0 F j1 sh1"
    and s2: "gslot sv moved fa nb ns 0 0 F j2 sh2"
    and ne: "j1 \<noteq> j2"
  shows "compat (ns + nb) sh1 sh2"
proof (cases "j1 < j2")
  case True
  from slots_compat_lt[OF info nb advlen advc s1 s2 True] show ?thesis .
next
  case False
  with ne have "j2 < j1" by simp
  from slots_compat_lt[OF info nb advlen advc s2 s1 this] show ?thesis by (rule compat_sym)
qed

lemma valid_adv_ndim:
  "valid_index sv i \<Longrightarrow> \<not> is_basic_idx i \<Longrightarrow>
     length (case i of Ix v \<Rightarrow> sv v | _ \<Rightarrow> []) = getattr_ndim i"
  by (auto simp: valid_index_def)

lemma expand_indices_shapes:
  assumes len: "length indices \<le> length shape"
    and valid: "\<forall>i\<in>set indices. valid_index sv i"
    and bc: "broadcast_shapes (adv_shapes sv indices) \<noteq> None"
  shows "\<exists>adv_indices common.
       expanded_indices indices shape = Inr adv_indices
     \<and> length adv_indices = length shape
     \<and> broadcast_shapes (map (rshape sv dv) adv_indices) = Some common
     \<and> length common = n_subspace_dims_of (full_indices_of indices shape)
                        + n_basic_indices_of (full_indices_of indices shape)"
proof -
  define F where "F = full_indices_of indices shape"
  define ns where "ns = n_subspace_dims_of F"
  define nb where "nb = n_basic_indices_of F"
  obtain fa moved where info: "subspace_info (map is_basic_idx F) (length shape) = (fa, moved)"
    by (cases "subspace_info (map is_basic_idx F) (length shape)") auto
  have nbdef: "nb = length (filter is_basic_idx F)" by (simp add: nb_def n_basic_indices_of_def)
  obtain m where Fm: "F = indices @ replicate m (PySlice None None None)"
    by (simp add: F_def full_indices_of_def Let_def)
  have advF: "filter (\<lambda>i. \<not> is_basic_idx i) F = filter (\<lambda>i. \<not> is_basic_idx i) indices"
    by (simp add: Fm)
  have nsdef: "ns = foldr max (map getattr_ndim (filter (\<lambda>i. \<not> is_basic_idx i) indices)) 0"
    by (simp add: ns_def n_subspace_dims_of_def advF)
  have run: "expanded_indices indices shape = expand_loop moved fa nb ns 0 0 shape F"
    using info by (simp add: expanded_indices_def Let_def F_def[symmetric] ns_def nb_def)
  have adv_in: "i \<in> set indices" if "i \<in> set F" "\<not> is_basic_idx i" for i
    using that by (auto simp: Fm)
  have advlen_i: "getattr_ndim i \<le> ns" if "i \<in> set indices" "\<not> is_basic_idx i" for i
    unfolding nsdef by (rule foldr_max_ge) (use that in auto)
  have wt: "\<forall>i\<in>set F. well_typed_idx ns i"
  proof
    fix i assume i: "i \<in> set F"
    show "well_typed_idx ns i"
    proof (cases "is_basic_idx i")
      case True
      with i valid show ?thesis by (auto simp: Fm well_typed_idx_def valid_index_def)
    next
      case False
      from adv_in[OF i False] valid have "valid_index sv i" by blast
      with False advlen_i[OF adv_in[OF i False] False] show ?thesis
        by (auto simp: well_typed_idx_def valid_index_def)
    qed
  qed
  have nn: "length (filter (\<lambda>i. \<not> is_newaxis i) F) = length shape"
    unfolding F_def by (rule full_non_newaxis[OF len])
  from loop_succeeds[of F shape ns 0 nb moved fa 0] wt nn nbdef obtain out where
    out: "expand_loop moved fa nb ns 0 0 shape F = Inr out" "length out = length shape"
    by auto
  from loop_closed[OF out(1), of sv dv] obtain js where js: "distinct js"
    "list_all2 (\<lambda>j e. gslot sv moved fa nb ns 0 0 F j (rshape sv dv e)) js out" by blast
  from js(2) have ljs: "length js = length out" by (rule list_all2_lengthD)
  have slot: "gslot sv moved fa nb ns 0 0 F (js ! i) (rshape sv dv (out ! i))"
    if "i < length out" for i
    using js(2) that by (simp add: list_all2_conv_all_nth)
  have advlen: "\<forall>v. Ix v \<in> set F \<and> \<not> is_basic_idx (Ix v) \<longrightarrow> length (sv v) \<le> ns"
  proof (intro allI impI)
    fix v assume v: "Ix v \<in> set F \<and> \<not> is_basic_idx (Ix v)"
    then have i: "Ix v \<in> set indices" using adv_in by blast
    from valid i have "valid_index sv (Ix v)" by blast
    from valid_adv_ndim[OF this] v have "length (sv v) = getattr_ndim (Ix v)" by simp
    with advlen_i[OF i] v show "length (sv v) \<le> ns" by simp
  qed
  have ml: "map length (adv_shapes sv indices)
            = map getattr_ndim (filter (\<lambda>i. \<not> is_basic_idx i) indices)"
    unfolding adv_shapes_def map_map
    by (rule map_cong) (use valid valid_adv_ndim in auto)
  have advc: "\<forall>v w. Ix v \<in> set F \<and> \<not> is_basic_idx (Ix v) \<and> Ix w \<in> set F \<and> \<not> is_basic_idx (Ix w)
                 \<longrightarrow> compat ns (sv v) (sv w)"
  proof (intro allI impI)
    fix v w assume a: "Ix v \<in> set F \<and> \<not> is_basic_idx (Ix v) \<and> Ix w \<in> set F \<and> \<not> is_basic_idx (Ix w)"
    then have "Ix v \<in> set (filter (\<lambda>i. \<not> is_basic_idx i) indices)"
      "Ix w \<in> set (filter (\<lambda>i. \<not> is_basic_idx i) indices)" using adv_in by auto
    then have "sv v \<in> set (adv_shapes sv indices)" "sv w \<in> set (adv_shapes sv indices)"
      unfolding adv_shapes_def by force+
    from broadcast_shapes_SomeD[OF bc this] show "compat ns (sv v) (sv w)"
      by (simp add: ml nsdef)
  qed
  let ?shapes = "map (rshape sv dv) out"
  have pair: "compat (ns + nb) s t" if "s \<in> set ?shapes" "t \<in> set ?shapes" for s t
  proof -
    from that obtain i1 i2 where i: "i1 < length out" "s = rshape sv dv (out ! i1)"
      "i2 < length out" "t = rshape sv dv (out ! i2)"
      by (auto simp: in_set_conv_nth)
    show ?thesis
    proof (cases "i1 = i2")
      case True
      with i show ?thesis by (simp add: compat_refl)
    next
      case False
      with js(1) ljs i have "js ! i1 \<noteq> js ! i2" by (simp add: nth_eq_iff_index_eq)
      from slots_compat[OF info nbdef advlen advc slot[OF i(1)] slot[OF i(3)] this] i
      show ?thesis by simp
    qed
  qed
  have lens: "length (rshape sv dv (out ! i)) \<le> ns + nb" if "i < length out" for i
  proof (cases "is_basic_idx (F ! (js ! i))")
    case True
    from slot_basic_col[OF slot[OF that] True nbdef] show ?thesis by simp
  next
    case False
    from slot_adv_col[OF slot[OF that] False info nbdef advlen] obtain v where
      v: "F ! (js ! i) = Ix v" "length (rshape sv dv (out ! i)) = length (sv v) + nb" by blast
    from slot[OF that] have "js ! i < length F" by (simp add: gslot_def)
    with v False have "Ix v \<in> set F" "\<not> is_basic_idx (Ix v)" by (metis nth_mem, metis)
    with advlen v show ?thesis by simp
  qed
  have cover: "set js = {j. j < length F \<and> \<not> is_newaxis (F ! j)}"
  proof (rule card_subset_eq)
    show "finite {j. j < length F \<and> \<not> is_newaxis (F ! j)}" by simp
    show "set js \<subseteq> {j. j < length F \<and> \<not> is_newaxis (F ! j)}"
    proof
      fix j assume "j \<in> set js"
      then obtain i where "i < length js" "js ! i = j" by (auto simp: in_set_conv_nth)
      with slot[of i] ljs show "j \<in> {j. j < length F \<and> \<not> is_newaxis (F ! j)}"
        by (auto simp: gslot_def)
    qed
    have "card (set js) = length js" using js(1) by (rule distinct_card)
    also have "\<dots> = length (filter (\<lambda>i. \<not> is_newaxis i) F)" using ljs out(2) nn by simp
    also have "\<dots> = card {j. j < length F \<and> \<not> is_newaxis (F ! j)}"
      by (rule length_filter_conv_card)
    finally show "card (set js) = card {j. j < length F \<and> \<not> is_newaxis (F ! j)}" .
  qed
  have maxlen: "foldr max (map length ?shapes) 0 = ns + nb"
  proof (cases "out = []")
    case True
    with out(2) len have "indices = []" "length shape = 0" by auto
    then have "F = []" by (simp add: F_def full_indices_of_def)
    with True show ?thesis
      by (simp add: ns_def nb_def n_subspace_dims_of_def n_basic_indices_of_def)
  next
    case False
    have le: "foldr max (map length ?shapes) 0 \<le> ns + nb"
      by (rule foldr_max_le) (use lens in \<open>auto simp: in_set_conv_nth\<close>)
    have "\<exists>i<length out. length (rshape sv dv (out ! i)) = ns + nb"
    proof (cases "\<exists>j<length F. is_basic_idx (F ! j) \<and> \<not> is_newaxis (F ! j)")
      case True
      then obtain j where j: "j < length F" "is_basic_idx (F ! j)" "\<not> is_newaxis (F ! j)"
        by blast
      with cover have "j \<in> set js" by simp
      then obtain i where i: "i < length js" "js ! i = j" by (auto simp: in_set_conv_nth)
      from slot_basic_col[OF slot[of i] _ nbdef] i j ljs
      have "length (rshape sv dv (out ! i)) = ns + nb" by simp
      with i ljs show ?thesis by auto
    next
      case nob: False
      from False ljs obtain j0 where "j0 \<in> set js" by (cases js) auto
      with cover have j0: "j0 < length F" "\<not> is_newaxis (F ! j0)" by auto
      with nob have "\<not> is_basic_idx (F ! j0)" by blast
      with j0 have "F ! j0 \<in> set (filter (\<lambda>i. \<not> is_basic_idx i) indices)"
        using adv_in[of "F ! j0"] by simp
      then have "filter (\<lambda>i. \<not> is_basic_idx i) indices \<noteq> []"
        by (metis empty_iff list.set(1))
      then have ne: "map getattr_ndim (filter (\<lambda>i. \<not> is_basic_idx i) indices) \<noteq> []" by simp
      from foldr_max_attained[OF ne] nsdef obtain i0 where
        i0: "i0 \<in> set indices" "\<not> is_basic_idx i0" "getattr_ndim i0 = ns" by auto
      then have "i0 \<in> set F" by (simp add: Fm)
      then obtain j where j: "j < length F" "F ! j = i0" by (auto simp: in_set_conv_nth)
      with i0 newaxis_basic[of i0] cover have "j \<in> set js" by auto
      then obtain i where i: "i < length js" "js ! i = j" by (auto simp: in_set_conv_nth)
      from slot_adv_col[OF slot[of i] _ info nbdef advlen] i j i0 ljs obtain v where
        v: "F ! j = Ix v" "length (rshape sv dv (out ! i)) = length (sv v) + nb" by auto
      from valid i0 have "valid_index sv i0" by blast
      from valid_adv_ndim[OF this i0(2)] j v have "length (sv v) = getattr_ndim i0" by auto
      with v i0 i ljs show ?thesis by auto
    qed
    then obtain i where i: "i < length out" "length (rshape sv dv (out ! i)) = ns + nb" by blast
    from i(1) have "out ! i \<in> set out" by simp
    then have "length (rshape sv dv (out ! i)) \<in> (\<lambda>x. length (rshape sv dv x)) ` set out"
      by (rule imageI)
    then have "ns + nb \<in> set (map length ?shapes)"
      unfolding i(2) by (simp add: image_image)
    from foldr_max_ge[OF this] le show ?thesis by simp
  qed
  from broadcast_shapes_Some[of ?shapes] pair maxlen obtain c where
    "broadcast_shapes ?shapes = Some c" "length c = ns + nb" by auto
  with run out show ?thesis
    unfolding ns_def nb_def F_def by auto
qed

text \<open>
  Claim C3, as amended.  For an index tuple no longer than the shape, whose advanced
  indices are tensors that broadcast with one another and whose slices are literal,
  \<^verbatim>\<open>expand_indices\<close> returns one index array per dimension of the shape; the arrays it
  broadcasts have one common broadcast shape, every returned array has that shape, and
  its rank is the greatest rank among the advanced indices plus the number of basic
  indices.
\<close>

theorem expand_indices_common_shape:
  assumes "length indices \<le> length shape"
    and "\<forall>i\<in>set indices. valid_index sv i"
    and "broadcast_shapes (adv_shapes sv indices) \<noteq> None"
  shows "\<exists>adv_indices common.
       expanded_indices indices shape = Inr adv_indices
     \<and> expand_indices indices shape
         = Inr (map (BroadcastArrays adv_indices) [0..<length shape])
     \<and> length adv_indices = length shape
     \<and> broadcast_shapes (map (rshape sv dv) adv_indices) = Some common
     \<and> length common = n_subspace_dims_of (full_indices_of indices shape)
                        + n_basic_indices_of (full_indices_of indices shape)
     \<and> (\<forall>k<length shape. rshape sv dv (BroadcastArrays adv_indices k) = common)"
proof -
  from expand_indices_shapes[OF assms, of dv] obtain adv_indices common where
    h: "expanded_indices indices shape = Inr adv_indices" "length adv_indices = length shape"
       "broadcast_shapes (map (rshape sv dv) adv_indices) = Some common"
       "length common = n_subspace_dims_of (full_indices_of indices shape)
                        + n_basic_indices_of (full_indices_of indices shape)"
    by blast
  then have "expand_indices indices shape
         = Inr (map (BroadcastArrays adv_indices) [0..<length shape])"
    by (simp add: expand_indices_def)
  with h show ?thesis by auto
qed

lemma ex_moved_expanded:
  "expanded_indices [Ix ex_J, PySlice None None None, Ix ex_K] [PyInt 4, PyInt 5, PyInt 6, PyInt 7]
     = Inr [NewAxesRight (V ex_J) 2,
            NewAxesRight (NewAxesLeft 1 (ArangeSlice None None None (PyInt 5))) 1,
            NewAxesRight (V ex_K) 2,
            NewAxesRight (NewAxesLeft 2 (ArangeSlice None None None (PyInt 7))) 0]"
  by (simp add: expanded_indices_def full_indices_of_def subspace_info_def list_index_def
      n_basic_indices_of_def n_subspace_dims_of_def as_tensor_def slice_arange_def
      ex_J_def ex_K_def Let_def)

theorem expand_indices_common_shape_witness:
  "length [Ix ex_J, PySlice None None None, Ix ex_K] \<le> length [PyInt 4, PyInt 5, PyInt 6, PyInt 7]
   \<and> broadcast_shapes (adv_shapes ex_sv_ok [Ix ex_J, PySlice None None None, Ix ex_K]) = Some [2]
   \<and> broadcast_shapes
        (map (rshape ex_sv_ok (\<lambda>_. 7))
           [NewAxesRight (V ex_J) 2,
            NewAxesRight (NewAxesLeft 1 (ArangeSlice None None None (PyInt 5))) 1,
            NewAxesRight (V ex_K) 2,
            NewAxesRight (NewAxesLeft 2 (ArangeSlice None None None (PyInt 7))) 0])
      = Some [2, 7, 7]
   \<and> n_subspace_dims_of
        (full_indices_of [Ix ex_J, PySlice None None None, Ix ex_K]
           [PyInt 4, PyInt 5, PyInt 6, PyInt 7]) = 1
   \<and> n_basic_indices_of
        (full_indices_of [Ix ex_J, PySlice None None None, Ix ex_K]
           [PyInt 4, PyInt 5, PyInt 6, PyInt 7]) = 2"
proof -
  have v: "\<forall>i\<in>set [Ix ex_J, PySlice None None None, Ix ex_K]. valid_index ex_sv_ok i"
    by (simp add: valid_index_def ex_sv_ok_def ex_J_def ex_K_def)
  have b: "broadcast_shapes (adv_shapes ex_sv_ok [Ix ex_J, PySlice None None None, Ix ex_K]) = Some [2]"
    by (simp add: adv_shapes_def broadcast_shapes_def broadcast_dim_def pad_shape_def
        ex_sv_ok_def ex_J_def ex_K_def)
  have s: "broadcast_shapes
        (map (rshape ex_sv_ok (\<lambda>_. 7))
           [NewAxesRight (V ex_J) 2,
            NewAxesRight (NewAxesLeft 1 (ArangeSlice None None None (PyInt 5))) 1,
            NewAxesRight (V ex_K) 2,
            NewAxesRight (NewAxesLeft 2 (ArangeSlice None None None (PyInt 7))) 0])
      = Some [2, 7, 7]"
    by code_simp
  from expand_indices_common_shape[OF _ v, of "[PyInt 4, PyInt 5, PyInt 6, PyInt 7]" "\<lambda>_. 7"] b
  obtain adv_indices common where
    "expanded_indices [Ix ex_J, PySlice None None None, Ix ex_K] [PyInt 4, PyInt 5, PyInt 6, PyInt 7]
       = Inr adv_indices"
    "broadcast_shapes (map (rshape ex_sv_ok (\<lambda>_. 7)) adv_indices) = Some common"
    "length common = n_subspace_dims_of
        (full_indices_of [Ix ex_J, PySlice None None None, Ix ex_K]
           [PyInt 4, PyInt 5, PyInt 6, PyInt 7])
      + n_basic_indices_of
        (full_indices_of [Ix ex_J, PySlice None None None, Ix ex_K]
           [PyInt 4, PyInt 5, PyInt 6, PyInt 7])"
    by auto
  have "n_subspace_dims_of
        (full_indices_of [Ix ex_J, PySlice None None None, Ix ex_K]
           [PyInt 4, PyInt 5, PyInt 6, PyInt 7]) = 1"
    "n_basic_indices_of
        (full_indices_of [Ix ex_J, PySlice None None None, Ix ex_K]
           [PyInt 4, PyInt 5, PyInt 6, PyInt 7]) = 2"
    by (simp_all add: n_subspace_dims_of_def n_basic_indices_of_def full_indices_of_def
        ex_J_def ex_K_def)
  with b s show ?thesis by simp
qed

text \<open>
  Claim C3 as the spec words it holds of any index tuple.  Two advanced indices of the
  run-time shapes \<open>[2]\<close> and \<open>[3]\<close> are expanded to arrays of these shapes, which do not
  broadcast.
\<close>

theorem expand_indices_not_broadcastable_counterexample:
  "length [Ix ex_J, Ix ex_K] \<le> length [PyInt 4, PyInt 5]
   \<and> expanded_indices [Ix ex_J, Ix ex_K] [PyInt 4, PyInt 5]
       = Inr [NewAxesRight (NewAxesLeft 0 (V ex_J)) 0, NewAxesRight (NewAxesLeft 0 (V ex_K)) 0]
   \<and> map (rshape ex_sv (\<lambda>_. 4))
        [NewAxesRight (NewAxesLeft 0 (V ex_J)) 0, NewAxesRight (NewAxesLeft 0 (V ex_K)) 0]
       = [[2], [3]]
   \<and> broadcast_shapes [[2], [3]] = None"
  by (simp add: expanded_indices_def full_indices_of_def subspace_info_def list_index_def
      n_basic_indices_of_def n_subspace_dims_of_def as_tensor_def
      ex_J_def ex_K_def ex_sv_def Let_def broadcast_shapes_def broadcast_dim_def pad_shape_def)

section \<open>Properties of the vector regime\<close>

text \<open>
  With the join axis 0 the entry whose density the loop writes at a position is the entry
  that produces the position; and where the scalar indices index the stack completely the
  expanded indices have rank 0 and \<^verbatim>\<open>pt.nonzero\<close> raises.
\<close>

lemma ex_join_axis_0_entries:
  "map_sum id (written ex_iv0)
     (logprob_MixtureRV (\<lambda>_. None) (MixtureRV 3 ''float64'' [False]) [V ex_vec_val]
        [ex_axis0, ex_I, ex_R, ex_X4, ex_Y4])
     = Inr [Some (V ex_Y4, [0, 2, 0], 0), Some (V ex_Y4, [0, 2, 1], 1)]
   \<and> produced ex_iv0 [V ex_X4, V ex_Y4] 0 [ex_f 0, ex_f 1, ex_f 2]
     = [Some (V ex_Y4, [0, 2, 0], 0), Some (V ex_Y4, [0, 2, 1], 1)]"
  by (simp add: logprob_MixtureRV_def ndim_def shape_tuple_def expand_indices_def
      expanded_indices_def constant_fold_def
      full_indices_of_def subspace_info_def list_index_def n_basic_indices_of_def
      n_subspace_dims_of_def as_tensor_def slice_arange_def py_get_def rv_pull_down_def
      logprob_helper_def nonzero_def getitem_nonzero_def getitem_0_def getitem_tuple_def
      produced_def producing_entry_def
      ex_axis0_def ex_X4_def ex_Y4_def ex_R_def ex_I_def ex_f_def ex_iv0_def
      ex_vec_val_def Let_def upt_rec)

lemma ex_all_scalar_indices_raise:
  "logprob_MixtureRV (\<lambda>_. None) (MixtureRV 3 ''float64'' []) [V ex_vec_val]
     [ex_axis0, ex_I, ex_R, ex_X0, ex_Y0] = Inl ValueError"
  by (simp add: logprob_MixtureRV_def ndim_def shape_tuple_def expand_indices_def
      expanded_indices_def constant_fold_def
      full_indices_of_def subspace_info_def list_index_def n_basic_indices_of_def
      n_subspace_dims_of_def as_tensor_def slice_arange_def py_get_def
      nonzero_def ex_axis0_def ex_X0_def ex_Y0_def ex_R_def ex_I_def Let_def upt_rec)

text \<open>
  Claim C1 has every position of the output hold the density of the component that
  produced the position.  For two stacked components of rank 3 joined along the axis 1 and
  indexed by \<open>R\<close> and \<open>I\<close>, position \<open>p\<close> is produced by the entry \<open>(R, 0, p)\<close> of the
  component \<open>I\<close>.  The loop drops the first dimension of the component, \<^verbatim>\<open>rv[0]\<close>, where the
  join dimension is the second, and indexes the rest by the remaining sub-indices: the
  density it writes at \<open>p\<close> is that of the entry \<open>(0, R, p)\<close>.
\<close>

theorem join_axis_1_reads_wrong_entry:
  "find_measurable_index_mixture (\<lambda>_. None) ex_axis1_node =
     Inr (Some (Out (MixtureRV 3 ''float64'' [False]) [ex_axis1, ex_R, ex_I, ex_X3, ex_Y3]
                  [TensorType ''float64'' [False]] 0))
   \<and> logprob_MixtureRV (\<lambda>_. None) (MixtureRV 3 ''float64'' [False]) [V ex_vec_val]
         [ex_axis1, ex_R, ex_I, ex_X3, ex_Y3] = Inr ex_axis1_graph
   \<and> written ex_iv ex_axis1_graph
           = [Some (V ex_Y3, [0, 2, 0], 0), Some (V ex_Y3, [0, 2, 1], 1)]
   \<and> produced ex_iv [V ex_X3, V ex_Y3] 1 [ex_e 0, ex_e 1, ex_e 2]
           = [Some (V ex_Y3, [2, 0, 0], 0), Some (V ex_Y3, [2, 0, 1], 1)]"
proof -
  have m: "find_measurable_index_mixture (\<lambda>_. None) ex_axis1_node =
     Inr (Some (Out (MixtureRV 3 ''float64'' [False]) [ex_axis1, ex_R, ex_I, ex_X3, ex_Y3]
                  [TensorType ''float64'' [False]] 0))"
    by (simp add: find_measurable_index_mixture_def get_stack_mixture_vars_def subtensor_ops_def
      folded_join_axis_def constant_fold_def unwrap_promised_def default_output_def outputs_def
      isinstance_Constant_def filter_measurable_variables_def measurable_def dtype_def
      broadcastable_def make_node_def
      ex_axis1_node_def ex_axis1_def ex_X3_def ex_Y3_def ex_R_def ex_I_def Let_def)
  have l: "logprob_MixtureRV (\<lambda>_. None) (MixtureRV 3 ''float64'' [False]) [V ex_vec_val]
         [ex_axis1, ex_R, ex_I, ex_X3, ex_Y3] = Inr ex_axis1_graph"
    by (simp add: logprob_MixtureRV_def ndim_def shape_tuple_def expand_indices_def
      expanded_indices_def constant_fold_def
      full_indices_of_def subspace_info_def list_index_def n_basic_indices_of_def
      n_subspace_dims_of_def as_tensor_def slice_arange_def py_get_def rv_pull_down_def
      logprob_helper_def nonzero_def getitem_nonzero_def getitem_0_def getitem_tuple_def
      ex_axis1_graph_def ex_axis1_def ex_X3_def ex_Y3_def ex_R_def ex_I_def ex_e_def ex_on_def
      ex_vec_val_def Let_def upt_rec)
  have w: "written ex_iv ex_axis1_graph
           = [Some (V ex_Y3, [0, 2, 0], 0), Some (V ex_Y3, [0, 2, 1], 1)]"
    by (simp add: ex_axis1_graph_def ex_iv_def ex_on_def ex_e_def upt_rec)
  have p: "produced ex_iv [V ex_X3, V ex_Y3] 1 [ex_e 0, ex_e 1, ex_e 2]
           = [Some (V ex_Y3, [2, 0, 0], 0), Some (V ex_Y3, [2, 0, 1], 1)]"
    by (simp add: produced_def producing_entry_def ex_iv_def ex_e_def upt_rec)
  from m l w p show ?thesis by simp
qed

end
